theory Spec2Isabelle
  imports Main
begin

unbundle bit_operations_syntax

section \<open>The reflect values the wiring code works on\<close>

text \<open>
  \<^verbatim>\<open>graph_connect.go\<close> wires processes through Go's \<^verbatim>\<open>reflect\<close> package. The part
  of \<^verbatim>\<open>reflect\<close> that the file uses is modelled here: types (only their kind, channel
  direction and element type matter), values that are either the zero \<^verbatim>\<open>Value\<close>, a
  channel held directly, or an addressable struct field, and the memory the addressable
  values point into.
\<close>

type_synonym uintptr = nat

text \<open>\<^verbatim>\<open>reflect.ChanDir\<close> is a bit mask: \<^verbatim>\<open>RecvDir = 1\<close>, \<^verbatim>\<open>SendDir = 2\<close>,
  \<^verbatim>\<open>BothDir = RecvDir | SendDir\<close>.\<close>

datatype ChanDir = RecvDir | SendDir | BothDir

fun dir_bits :: "ChanDir \<Rightarrow> nat" where
  "dir_bits RecvDir = 1"
| "dir_bits SendDir = 2"
| "dir_bits BothDir = 3"

text \<open>A \<^verbatim>\<open>reflect.Type\<close>: a channel type with its direction and element type, or any
  other type, known by its name. Channel types are unnamed ones (\<^verbatim>\<open>chan T\<close>,
  \<^verbatim>\<open>chan<- T\<close>, \<^verbatim>\<open><-chan T\<close>).\<close>

datatype gtype = TChan ChanDir gtype | TNamed string

text \<open>\<^verbatim>\<open>Type.Elem()\<close> panics on a type that is no channel; \<open>None\<close> is that
  panic.\<close>

fun Elem :: "gtype \<Rightarrow> gtype option" where
  "Elem (TChan d e) = Some e"
| "Elem (TNamed s) = None"

definition ChanOf :: "ChanDir \<Rightarrow> gtype \<Rightarrow> gtype" where
  "ChanOf d e = TChan d e"

text \<open>Go's assignability of a value of type \<open>v\<close> to a variable of type \<open>t\<close>, for
  the types above: identical types, or a bidirectional channel assigned to a channel type
  of the same element type.\<close>

fun assignable :: "gtype \<Rightarrow> gtype \<Rightarrow> bool" where
  "assignable (TChan BothDir e) (TChan d e') = (e = e')"
| "assignable v t = (v = t)"

text \<open>A channel object is known by its address and its capacity. A memory cell is a
  struct field: its declared type and the channel it holds, \<open>None\<close> for \<^verbatim>\<open>nil\<close>.\<close>

type_synonym chan = "uintptr \<times> int"

record cell =
  ctype :: gtype
  cval :: "chan option"

text \<open>A \<^verbatim>\<open>reflect.Value\<close>: the zero Value, a channel of some static type held directly
  (not addressable), or a reference to a struct field together with the flag that
  \<^verbatim>\<open>CanSet\<close> reports (the field is exported and was reached through a pointer).\<close>

datatype Value = ZeroValue | ChanVal gtype "chan option" | FieldVal nat bool

section \<open>The data of the graph\<close>

record address =
  proc :: string
  port :: string
  key :: string

record connection =
  src :: address
  tgt :: address
  channel :: Value
  buffer :: int

text \<open>
  The registry \<^verbatim>\<open>n.procs\<close> holds interface values. What \<^verbatim>\<open>getProcPort\<close> can tell apart
  is: a nil interface, a value that is no pointer (so not addressable), a nil pointer, a
  pointer to a component struct with its fields by name, and a pointer to a \<^verbatim>\<open>Graph\<close>.
  Of a nested \<^verbatim>\<open>Graph\<close> only the two tables of exported ports are used. A component
  is a struct, as the processes of the specification are; \<^verbatim>\<open>FieldByName\<close> on a value of
  another kind is not modelled. A field is listed with the value \<^verbatim>\<open>FieldByName\<close> returns
  for it.
\<close>

datatype process =
    NilInterface
  | NonPointer
  | NilPointer
  | StructPtr "(string \<times> Value) list"
  | GraphPtr "(string \<times> Value) list" "(string \<times> Value) list"

text \<open>
  The receiver \<^verbatim>\<open>n *Graph\<close> with the fields this file reads and writes, together with
  the memory that the reflect values of the graph point into: the struct fields of the
  processes (\<open>heap\<close>) and the address the next \<^verbatim>\<open>reflect.MakeChan\<close> returns
  (\<open>next_chan\<close>). The counter table \<^verbatim>\<open>chanListenersCount\<close> is a Go map read with the
  zero default; the declaration of its value type is not part of this file, the counts
  are natural numbers here. The table and its lock are taken to be initialised with the
  graph.
\<close>

record state =
  procs :: "string \<rightharpoonup> process"
  connections :: "connection list"
  chanListenersCount :: "uintptr \<rightharpoonup> nat"
  conf_BufferSize :: int
  heap :: "nat \<Rightarrow> cell"
  next_chan :: uintptr

text \<open>An error value for each \<^verbatim>\<open>fmt.Errorf\<close> of the file; the two wrappers of
  \<^verbatim>\<open>ConnectBuf\<close> carry the wrapped error as \<^verbatim>\<open>%w\<close> does.\<close>

datatype error =
    ProcessNotFound string
  | ProcessNotSettable string
  | PortNotFound string string
  | NotAChannel
  | WrongDirection ChanDir
  | PortNotAssignable
  | ErrConnect error
  | ErrConnectPort string string error

text \<open>A call either returns or panics.\<close>

datatype 'a res = Ret 'a | Panic

section \<open>Operations of reflect\<close>

fun IsValid :: "Value \<Rightarrow> bool" where
  "IsValid ZeroValue = False"
| "IsValid (ChanVal t c) = True"
| "IsValid (FieldVal a s) = True"

text \<open>\<^verbatim>\<open>Value.Type()\<close> panics on the zero Value.\<close>

fun Type :: "state \<Rightarrow> Value \<Rightarrow> gtype option" where
  "Type n ZeroValue = None"
| "Type n (ChanVal t c) = Some t"
| "Type n (FieldVal a s) = Some (ctype (heap n a))"

text \<open>The channel a value holds now; an addressable value is read through memory.\<close>

fun load :: "state \<Rightarrow> Value \<Rightarrow> chan option" where
  "load n ZeroValue = None"
| "load n (ChanVal t c) = c"
| "load n (FieldVal a s) = cval (heap n a)"

text \<open>\<^verbatim>\<open>Value.IsNil()\<close>; the file calls it on valid values of channel kind only.\<close>

definition IsNil :: "state \<Rightarrow> Value \<Rightarrow> bool" where
  "IsNil n v = (load n v = None)"

fun CanSet :: "Value \<Rightarrow> bool" where
  "CanSet (FieldVal a s) = s"
| "CanSet v = False"

text \<open>\<^verbatim>\<open>Value.Pointer()\<close> panics on the zero Value and is 0 for a nil channel.\<close>

definition Pointer :: "state \<Rightarrow> Value \<Rightarrow> uintptr option" where
  "Pointer n v =
     (if \<not> IsValid v then None
      else (case load n v of None \<Rightarrow> Some 0 | Some c \<Rightarrow> Some (fst c)))"

text \<open>\<^verbatim>\<open>port.Set(x)\<close> panics unless \<open>port\<close> is settable, \<open>x\<close> is valid and the type
  of \<open>x\<close> is assignable to the type of \<open>port\<close>; it stores what \<open>x\<close> holds.\<close>

definition Set_val :: "state \<Rightarrow> Value \<Rightarrow> Value \<Rightarrow> state option" where
  "Set_val n p x =
     (case p of
        FieldVal a s \<Rightarrow>
          (if \<not> s then None
           else (case Type n x of
                   None \<Rightarrow> None
                 | Some tx \<Rightarrow>
                     if assignable tx (ctype (heap n a))
                     then Some (n\<lparr>heap := (heap n)(a := (heap n a)\<lparr>cval := load n x\<rparr>)\<rparr>)
                     else None))
      | _ \<Rightarrow> None)"

text \<open>\<^verbatim>\<open>reflect.MakeChan\<close> panics on a negative buffer size, and the model with it; a
  channel it returns is at an address not handed out before. The runtime also panics on
  a size that is out of range for the element type; that limit is not modelled, so the
  model returns a channel for some sizes where the code panics. Whatever is stated below
  of a panic of the model is therefore a panic of the code, not the converse.\<close>

definition MakeChan :: "state \<Rightarrow> gtype \<Rightarrow> int \<Rightarrow> (Value \<times> state) res" where
  "MakeChan n t bufSize =
     (if bufSize < 0 then Panic
      else Ret (ChanVal t (Some (next_chan n, bufSize)), n\<lparr>next_chan := next_chan n + 1\<rparr>))"

section \<open>parseAddress\<close>

text \<open>The slice expression \<^verbatim>\<open>s[lo:hi]\<close> panics unless \<open>lo \<le> hi \<le> len(s)\<close>.\<close>

definition slice :: "string \<Rightarrow> nat \<Rightarrow> nat \<Rightarrow> string option" where
  "slice s lo hi = (if lo \<le> hi \<and> hi \<le> length s then Some (take (hi - lo) (drop lo s)) else None)"

text \<open>
  The loop \<^verbatim>\<open>for i, r := range port\<close>, from index \<open>i\<close> on, over the rest \<open>rs\<close> of the
  text; the loop state is \<open>(keyPos, key, n.port)\<close>. The text is a list of bytes: a
  bracket is a single byte that occurs in no multi-byte rune, so the loop over the bytes
  meets the same brackets at the same indices as the loop over the runes.
\<close>

fun parse_loop :: "string \<Rightarrow> nat \<Rightarrow> string \<Rightarrow> nat \<times> string \<times> string \<Rightarrow> (nat \<times> string \<times> string) option" where
  "parse_loop pt i [] st = Some st"
| "parse_loop pt i (r # rs) (keyPos, ky, nport) =
     (let keyPos1 = (if r = CHR ''['' then i + 1 else keyPos);
          nport1 = (if r = CHR ''['' then take i pt else nport)
      in if r = CHR '']''
         then (case slice pt keyPos1 i of
                 None \<Rightarrow> None
               | Some k \<Rightarrow> parse_loop pt (i + 1) rs (keyPos1, k, nport1))
         else parse_loop pt (i + 1) rs (keyPos1, ky, nport1))"

definition parseAddress :: "string \<Rightarrow> string \<Rightarrow> address option" where
  "parseAddress pr pt =
     (case parse_loop pt 0 pt (0, [], pt) of
        None \<Rightarrow> None
      | Some (keyPos, ky, nport) \<Rightarrow>
          if ky = [] then Some \<lparr>proc = pr, port = nport, key = []\<rparr>
          else Some \<lparr>proc = pr, port = nport, key = ky\<rparr>)"

section \<open>The channel registry and the reference counter\<close>

fun find_loop :: "connection list \<Rightarrow> address \<Rightarrow> ChanDir \<Rightarrow> Value" where
  "find_loop [] addr dir = ZeroValue"
| "find_loop (conn # rest) addr dir =
     (let a = (if dir = SendDir then src conn else tgt conn)
      in if a = addr then channel conn else find_loop rest addr dir)"

definition findExistingChan :: "state \<Rightarrow> address \<Rightarrow> ChanDir \<Rightarrow> Value" where
  "findExistingChan n addr dir = find_loop (connections n) addr dir"

text \<open>Reading a Go map gives the zero value for a missing key.\<close>

definition count_of :: "(uintptr \<rightharpoonup> nat) \<Rightarrow> uintptr \<Rightarrow> nat" where
  "count_of m p = (case m p of None \<Rightarrow> 0 | Some c \<Rightarrow> c)"

definition incChanListenersCount :: "state \<Rightarrow> Value \<Rightarrow> state res" where
  "incChanListenersCount n c =
     (case Pointer n c of
        None \<Rightarrow> Panic
      | Some ptr \<Rightarrow>
          (let cnt = count_of (chanListenersCount n) ptr;
               cnt = cnt + 1
           in Ret (n\<lparr>chanListenersCount := (chanListenersCount n)(ptr \<mapsto> cnt)\<rparr>)))"

definition decChanListenersCount :: "state \<Rightarrow> Value \<Rightarrow> (bool \<times> state) res" where
  "decChanListenersCount n c =
     (case Pointer n c of
        None \<Rightarrow> Panic
      | Some ptr \<Rightarrow>
          (let cnt = count_of (chanListenersCount n) ptr
           in if cnt = 0 then Ret (True, n)
              else (let cnt = cnt - 1
                    in Ret (cnt = 0, n\<lparr>chanListenersCount := (chanListenersCount n)(ptr \<mapsto> cnt)\<rparr>))))"

section \<open>Resolving a port\<close>

text \<open>
  Modelled from the spec: \<^verbatim>\<open>getOutPort\<close> and \<^verbatim>\<open>getInPort\<close> of a nested graph are not
  part of this file. They are the sub-network's exported-port lookup by name: the value
  registered under the name, or an error when the name is not exported.
\<close>

definition getOutPort :: "(string \<times> Value) list \<Rightarrow> string \<Rightarrow> error + Value" where
  "getOutPort outPorts name =
     (case map_of outPorts name of None \<Rightarrow> Inl (PortNotFound [] name) | Some v \<Rightarrow> Inr v)"

definition getInPort :: "(string \<times> Value) list \<Rightarrow> string \<Rightarrow> error + Value" where
  "getInPort inPorts name =
     (case map_of inPorts name of None \<Rightarrow> Inl (PortNotFound [] name) | Some v \<Rightarrow> Inr v)"

text \<open>\<^verbatim>\<open>Value.FieldByName\<close> returns the zero Value when the struct has no such field.\<close>

definition FieldByName :: "(string \<times> Value) list \<Rightarrow> string \<Rightarrow> Value" where
  "FieldByName flds name = (case map_of flds name of None \<Rightarrow> ZeroValue | Some v \<Rightarrow> v)"

text \<open>
  After \<^verbatim>\<open>val = val.Elem()\<close> for a pointer, \<^verbatim>\<open>val.CanSet()\<close> holds exactly for a
  non-nil pointer: a nil interface gives the zero Value, a value that is no pointer is
  not addressable, and \<^verbatim>\<open>Elem\<close> of a nil pointer is the zero Value.
\<close>

fun proc_CanSet :: "process \<Rightarrow> bool" where
  "proc_CanSet NilInterface = False"
| "proc_CanSet NonPointer = False"
| "proc_CanSet NilPointer = False"
| "proc_CanSet (StructPtr flds) = True"
| "proc_CanSet (GraphPtr inPorts outPorts) = True"

definition getProcPort :: "state \<Rightarrow> string \<Rightarrow> string \<Rightarrow> ChanDir \<Rightarrow> error + Value" where
  "getProcPort n procName portName dir =
     (case procs n procName of
        None \<Rightarrow> Inl (ProcessNotFound procName)
      | Some pr \<Rightarrow>
          if \<not> proc_CanSet pr then Inl (ProcessNotSettable procName)
          else (case pr of
                  GraphPtr inPorts outPorts \<Rightarrow>
                    (case (if dir = SendDir then getOutPort outPorts portName
                           else getInPort inPorts portName) of
                       Inl err \<Rightarrow> Inl (PortNotFound procName portName)
                     | Inr portVal \<Rightarrow> Inr portVal)
                | StructPtr flds \<Rightarrow>
                    (let portVal = FieldByName flds portName
                     in if \<not> IsValid portVal then Inl (PortNotFound procName portName)
                        else Inr portVal)
                | _ \<Rightarrow> Inl (ProcessNotSettable procName)))"

section \<open>Attaching a channel to a port\<close>

text \<open>The case on the type is the test \<^verbatim>\<open>portType.Kind() != reflect.Chan\<close>; the
  second test is \<^verbatim>\<open>portType.ChanDir()&dir == 0\<close>.\<close>

definition validateChanDir :: "gtype \<Rightarrow> ChanDir \<Rightarrow> error option" where
  "validateChanDir portType dir =
     (case portType of
        TNamed s \<Rightarrow> Some NotAChannel
      | TChan d e \<Rightarrow>
          if dir_bits d AND dir_bits dir = 0 then Some (WrongDirection dir) else None)"

definition validateCanSet :: "Value \<Rightarrow> error option" where
  "validateCanSet portVal = (if \<not> CanSet portVal then Some PortNotAssignable else None)"

definition selectOrMakeChan :: "state \<Rightarrow> Value \<Rightarrow> Value \<Rightarrow> int \<Rightarrow> (Value \<times> state) res" where
  "selectOrMakeChan n new existing bufSize =
     (if \<not> IsValid new \<or> IsNil n new then
        (if IsValid existing \<and> \<not> IsNil n existing then Ret (existing, n)
         else (case Type n existing of
                 None \<Rightarrow> Panic
               | Some t \<Rightarrow>
                   (case Elem t of
                      None \<Rightarrow> Panic
                    | Some e \<Rightarrow> MakeChan n (ChanOf BothDir e) bufSize)))
      else Ret (new, n))"

text \<open>The result is the pair \<^verbatim>\<open>(ch, err)\<close> of the Go function and the state after it.\<close>

definition attachPort :: "state \<Rightarrow> Value \<Rightarrow> ChanDir \<Rightarrow> Value \<Rightarrow> int \<Rightarrow> (Value \<times> error option \<times> state) res" where
  "attachPort n prt dir ch bufSize =
     (case Type n prt of
        None \<Rightarrow> Panic
      | Some t \<Rightarrow>
          (case validateChanDir t dir of
             Some err \<Rightarrow> Ret (ch, Some err, n)
           | None \<Rightarrow>
               (case validateCanSet prt of
                  Some err \<Rightarrow> Ret (ch, Some err, n)
                | None \<Rightarrow>
                    (case selectOrMakeChan n ch prt bufSize of
                       Panic \<Rightarrow> Panic
                     | Ret (ch1, n1) \<Rightarrow>
                         (case Set_val n1 prt ch1 of
                            None \<Rightarrow> Panic
                          | Some n2 \<Rightarrow> Ret (ch1, None, n2))))))"

section \<open>Connect and ConnectBuf\<close>

text \<open>Lines 60 to 74 of the file: the channel to reuse, whether a new one is needed,
  and the state after the increment of the fan-in case.\<close>

definition reuse_chan :: "state \<Rightarrow> address \<Rightarrow> address \<Rightarrow> (Value \<times> bool \<times> state) res" where
  "reuse_chan n sendAddr recvAddr =
     (let ch = findExistingChan n sendAddr SendDir
      in if \<not> IsValid ch \<or> IsNil n ch then
           (let ch = findExistingChan n recvAddr RecvDir
            in if IsValid ch \<and> \<not> IsNil n ch then
                 (case incChanListenersCount n ch of
                    Panic \<Rightarrow> Panic
                  | Ret n1 \<Rightarrow> Ret (ch, False, n1))
               else Ret (ch, True, n))
         else Ret (ch, False, n))"

definition ConnectBuf :: "state \<Rightarrow> string \<Rightarrow> string \<Rightarrow> string \<Rightarrow> string \<Rightarrow> int \<Rightarrow> (error option \<times> state) res" where
  "ConnectBuf n senderName senderPort receiverName receiverPort bufferSize =
     (case parseAddress senderName senderPort of
        None \<Rightarrow> Panic
      | Some sendAddr \<Rightarrow>
     (case getProcPort n senderName senderPort SendDir of
        Inl err \<Rightarrow> Ret (Some (ErrConnect err), n)
      | Inr sendPort \<Rightarrow>
     (case parseAddress receiverName receiverPort of
        None \<Rightarrow> Panic
      | Some recvAddr \<Rightarrow>
     (case getProcPort n receiverName receiverPort RecvDir of
        Inl err \<Rightarrow> Ret (Some (ErrConnect err), n)
      | Inr recvPort \<Rightarrow>
     (case reuse_chan n sendAddr recvAddr of
        Panic \<Rightarrow> Panic
      | Ret (ch, isNewChan, n1) \<Rightarrow>
     (case attachPort n1 sendPort SendDir ch bufferSize of
        Panic \<Rightarrow> Panic
      | Ret (ch1, Some err, n2) \<Rightarrow> Ret (Some (ErrConnectPort senderName senderPort err), n2)
      | Ret (ch1, None, n2) \<Rightarrow>
     (case attachPort n2 recvPort RecvDir ch1 bufferSize of
        Panic \<Rightarrow> Panic
      | Ret (ch2, Some err, n3) \<Rightarrow> Ret (Some (ErrConnectPort receiverName receiverPort err), n3)
      | Ret (ch2, None, n3) \<Rightarrow>
     (case (if isNewChan then incChanListenersCount n3 ch1 else Ret n3) of
        Panic \<Rightarrow> Panic
      | Ret n4 \<Rightarrow>
          Ret (None, n4\<lparr>connections := connections n4 @
                 [\<lparr>src = sendAddr, tgt = recvAddr, channel = ch1, buffer = bufferSize\<rparr>]\<rparr>)))))))))"


section \<open>Reading the result of parseAddress off the text\<close>

text \<open>The part of a text before the last occurrence of a character, and the part after
  it (the whole text when the character does not occur).\<close>

definition before_last :: "char \<Rightarrow> string \<Rightarrow> string" where
  "before_last c t = rev (tl (dropWhile (\<lambda>x. x \<noteq> c) (rev t)))"

definition after_last :: "char \<Rightarrow> string \<Rightarrow> string" where
  "after_last c t = rev (takeWhile (\<lambda>x. x \<noteq> c) (rev t))"

text \<open>What the code computes: the port name ends before the last \<open>[\<close> of the text;
  the key ends before the last \<open>]\<close> and starts after the last \<open>[\<close> in front of that
  \<open>]\<close>, or at the start of the text when there is none.\<close>

definition port_of_text :: "string \<Rightarrow> string" where
  "port_of_text t = (if CHR ''['' \<in> set t then before_last CHR ''['' t else t)"

definition key_of_text :: "string \<Rightarrow> string" where
  "key_of_text t =
     (if CHR '']'' \<in> set t then after_last CHR ''['' (before_last CHR '']'' t) else [])"

text \<open>The state of the loop of \<^verbatim>\<open>parseAddress\<close> on the text \<open>pt\<close> once the prefix
  \<open>pre\<close> has been read.\<close>

definition loop_state :: "string \<Rightarrow> string \<Rightarrow> nat \<times> string \<times> string" where
  "loop_state pt pre =
     ((if CHR ''['' \<in> set pre then length (before_last CHR ''['' pre) + 1 else 0),
      key_of_text pre,
      (if CHR ''['' \<in> set pre then before_last CHR ''['' pre else pt))"

text \<open>The specification's reading: the first \<open>[\<close> is the split point, the port name is
  everything before it, and the key runs from the split point to the last \<open>]\<close>.\<close>

definition spec_port :: "string \<Rightarrow> string" where
  "spec_port t = takeWhile (\<lambda>x. x \<noteq> CHR ''['') t"

definition spec_key :: "string \<Rightarrow> string" where
  "spec_key t =
     (let rest = drop (Suc (length (spec_port t))) t
      in if CHR '']'' \<in> set rest then before_last CHR '']'' rest else [])"

section \<open>Notions used in the statements\<close>

text \<open>The test \<^verbatim>\<open>ch.IsValid() && !ch.IsNil()\<close> of \<^verbatim>\<open>ConnectBuf\<close> and
  \<^verbatim>\<open>selectOrMakeChan\<close>: the value holds a channel.\<close>

definition live :: "state \<Rightarrow> Value \<Rightarrow> bool" where
  "live n v = (IsValid v \<and> \<not> IsNil n v)"

text \<open>Every recorded connection holds a channel. \<^verbatim>\<open>ConnectBuf\<close> records only such
  connections and keeps the property.\<close>

definition conns_live :: "state \<Rightarrow> bool" where
  "conns_live n = (\<forall>c \<in> set (connections n). live n (channel c))"

text \<open>The address that \<^verbatim>\<open>parseAddress\<close> returns.\<close>

definition addr_of :: "string \<Rightarrow> string \<Rightarrow> address" where
  "addr_of pr pt = \<lparr>proc = pr, port = port_of_text pt, key = key_of_text pt\<rparr>"

text \<open>The address of a connection that \<^verbatim>\<open>findExistingChan\<close> compares, by direction.\<close>

definition conn_addr :: "ChanDir \<Rightarrow> connection \<Rightarrow> address" where
  "conn_addr dir conn = (if dir = SendDir then src conn else tgt conn)"

section \<open>Successive decrements\<close>

text \<open>The results of \<open>k\<close> calls of \<^verbatim>\<open>decChanListenersCount\<close> on the same channel, one
  after the other.\<close>

fun dec_times :: "nat \<Rightarrow> state \<Rightarrow> Value \<Rightarrow> bool list res" where
  "dec_times 0 n c = Ret []"
| "dec_times (Suc k) n c =
     (case decChanListenersCount n c of
        Panic \<Rightarrow> Panic
      | Ret (b, n1) \<Rightarrow>
          (case dec_times k n1 c of Panic \<Rightarrow> Panic | Ret bs \<Rightarrow> Ret (b # bs)))"

section \<open>A small network\<close>

text \<open>
  Seven port fields in memory and the processes that own them: \<^verbatim>\<open>A.Out\<close>,
  \<^verbatim>\<open>C.Out\<close> and \<^verbatim>\<open>X.Out\<close> of type \<^verbatim>\<open>chan<- int\<close>, \<^verbatim>\<open>B.In\<close> and \<^verbatim>\<open>C.In\<close> of type
  \<^verbatim>\<open><-chan int\<close>, \<^verbatim>\<open>D.In\<close> of type \<^verbatim>\<open><-chan string\<close>, all nil, and \<^verbatim>\<open>E.Out\<close> of type
  \<^verbatim>\<open>chan int\<close>, which its component has set to an unbuffered channel (the one at
  address 1). The graph has no connection yet and an empty counter table.
\<close>

definition ex_heap :: "nat \<Rightarrow> cell" where
  "ex_heap =
     (\<lambda>a. \<lparr>ctype = TNamed ''int'', cval = None\<rparr>)
       (0 := \<lparr>ctype = TChan SendDir (TNamed ''int''), cval = None\<rparr>,
        1 := \<lparr>ctype = TChan RecvDir (TNamed ''int''), cval = None\<rparr>,
        2 := \<lparr>ctype = TChan RecvDir (TNamed ''int''), cval = None\<rparr>,
        3 := \<lparr>ctype = TChan SendDir (TNamed ''int''), cval = None\<rparr>,
        4 := \<lparr>ctype = TChan RecvDir (TNamed ''string''), cval = None\<rparr>,
        5 := \<lparr>ctype = TChan BothDir (TNamed ''int''), cval = Some (1, 0)\<rparr>,
        6 := \<lparr>ctype = TChan SendDir (TNamed ''int''), cval = None\<rparr>)"

definition ex_procs :: "string \<rightharpoonup> process" where
  "ex_procs =
     [''A'' \<mapsto> StructPtr [(''Out'', FieldVal 0 True)],
      ''B'' \<mapsto> StructPtr [(''In'', FieldVal 1 True)],
      ''C'' \<mapsto> StructPtr [(''In'', FieldVal 2 True), (''Out'', FieldVal 3 True)],
      ''D'' \<mapsto> StructPtr [(''In'', FieldVal 4 True)],
      ''E'' \<mapsto> StructPtr [(''Out'', FieldVal 5 True)],
      ''X'' \<mapsto> StructPtr [(''Out'', FieldVal 6 True)]]"

definition ex_graph :: state where
  "ex_graph =
     \<lparr>procs = ex_procs, connections = [], chanListenersCount = Map.empty,
      conf_BufferSize = 0, heap = ex_heap, next_chan = 2\<rparr>"

text \<open>The same graph with a count of 3 stored for the channel at address 7.\<close>

definition ex_counted :: state where
  "ex_counted = ex_graph\<lparr>chanListenersCount := [7 \<mapsto> 3]\<rparr>"

definition ex_chan7 :: Value where
  "ex_chan7 = ChanVal (TChan BothDir (TNamed ''int'')) (Some (7, 0))"

text \<open>
  States of the small network after some connections. A channel made by \<^verbatim>\<open>ConnectBuf\<close>
  is bidirectional, of element type \<^verbatim>\<open>int\<close> here; the first one made is at address 2.
\<close>

definition t_chan :: gtype where
  "t_chan = TChan BothDir (TNamed ''int'')"

definition a_Out :: address where "a_Out = \<lparr>proc = ''A'', port = ''Out'', key = []\<rparr>"
definition b_In :: address where "b_In = \<lparr>proc = ''B'', port = ''In'', key = []\<rparr>"
definition c_In :: address where "c_In = \<lparr>proc = ''C'', port = ''In'', key = []\<rparr>"
definition c_Out :: address where "c_Out = \<lparr>proc = ''C'', port = ''Out'', key = []\<rparr>"
definition e_Out :: address where "e_Out = \<lparr>proc = ''E'', port = ''Out'', key = []\<rparr>"
definition x_Out :: address where "x_Out = \<lparr>proc = ''X'', port = ''Out'', key = []\<rparr>"

text \<open>After \<^verbatim>\<open>ConnectBuf("A", "Out", "B", "In", 10)\<close>.\<close>

definition ex_AB :: state where
  "ex_AB = ex_graph
     \<lparr>connections :=
        [\<lparr>src = a_Out, tgt = b_In, channel = ChanVal t_chan (Some (2, 10)), buffer = 10\<rparr>],
      chanListenersCount := [2 \<mapsto> 1],
      heap := ex_heap
        (0 := \<lparr>ctype = TChan SendDir (TNamed ''int''), cval = Some (2, 10)\<rparr>,
         1 := \<lparr>ctype = TChan RecvDir (TNamed ''int''), cval = Some (2, 10)\<rparr>),
      next_chan := 3\<rparr>"

text \<open>Then \<^verbatim>\<open>ConnectBuf("A", "Out", "C", "In", 5)\<close>: a second receiver on \<^verbatim>\<open>A.Out\<close>.\<close>

definition ex_AB_AC :: state where
  "ex_AB_AC = ex_AB
     \<lparr>connections :=
        [\<lparr>src = a_Out, tgt = b_In, channel = ChanVal t_chan (Some (2, 10)), buffer = 10\<rparr>,
         \<lparr>src = a_Out, tgt = c_In, channel = ChanVal t_chan (Some (2, 10)), buffer = 5\<rparr>],
      heap := (heap ex_AB)
        (0 := \<lparr>ctype = TChan SendDir (TNamed ''int''), cval = Some (2, 10)\<rparr>,
         2 := \<lparr>ctype = TChan RecvDir (TNamed ''int''), cval = Some (2, 10)\<rparr>)\<rparr>"

text \<open>Instead \<^verbatim>\<open>ConnectBuf("C", "Out", "B", "In", 5)\<close> after the first: a second sender
  into \<^verbatim>\<open>B.In\<close>.\<close>

definition ex_AB_CB :: state where
  "ex_AB_CB = ex_AB
     \<lparr>connections :=
        [\<lparr>src = a_Out, tgt = b_In, channel = ChanVal t_chan (Some (2, 10)), buffer = 10\<rparr>,
         \<lparr>src = c_Out, tgt = b_In, channel = ChanVal t_chan (Some (2, 10)), buffer = 5\<rparr>],
      chanListenersCount := [2 \<mapsto> 2],
      heap := (heap ex_AB)
        (3 := \<lparr>ctype = TChan SendDir (TNamed ''int''), cval = Some (2, 10)\<rparr>,
         1 := \<lparr>ctype = TChan RecvDir (TNamed ''int''), cval = Some (2, 10)\<rparr>)\<rparr>"

text \<open>The graph after \<^verbatim>\<open>ConnectBuf("X", "Out", "B", "In", 0)\<close>, then
  \<^verbatim>\<open>ConnectBuf("A", "Out", "B", "In", 0)\<close>, then \<^verbatim>\<open>ConnectBuf("A", "Out", "C", "In", 0)\<close>.\<close>

definition ex_XB :: state where
  "ex_XB = ex_graph
     \<lparr>connections :=
        [\<lparr>src = x_Out, tgt = b_In, channel = ChanVal t_chan (Some (2, 0)), buffer = 0\<rparr>],
      chanListenersCount := [2 \<mapsto> 1],
      heap := ex_heap
        (6 := \<lparr>ctype = TChan SendDir (TNamed ''int''), cval = Some (2, 0)\<rparr>,
         1 := \<lparr>ctype = TChan RecvDir (TNamed ''int''), cval = Some (2, 0)\<rparr>),
      next_chan := 3\<rparr>"

definition ex_XB_AB :: state where
  "ex_XB_AB = ex_XB
     \<lparr>connections :=
        [\<lparr>src = x_Out, tgt = b_In, channel = ChanVal t_chan (Some (2, 0)), buffer = 0\<rparr>,
         \<lparr>src = a_Out, tgt = b_In, channel = ChanVal t_chan (Some (2, 0)), buffer = 0\<rparr>],
      chanListenersCount := [2 \<mapsto> 2],
      heap := (heap ex_XB)
        (0 := \<lparr>ctype = TChan SendDir (TNamed ''int''), cval = Some (2, 0)\<rparr>,
         1 := \<lparr>ctype = TChan RecvDir (TNamed ''int''), cval = Some (2, 0)\<rparr>)\<rparr>"

definition ex_XB_AB_AC :: state where
  "ex_XB_AB_AC = ex_XB_AB
     \<lparr>connections :=
        [\<lparr>src = x_Out, tgt = b_In, channel = ChanVal t_chan (Some (2, 0)), buffer = 0\<rparr>,
         \<lparr>src = a_Out, tgt = b_In, channel = ChanVal t_chan (Some (2, 0)), buffer = 0\<rparr>,
         \<lparr>src = a_Out, tgt = c_In, channel = ChanVal t_chan (Some (2, 0)), buffer = 0\<rparr>],
      heap := (heap ex_XB_AB)
        (0 := \<lparr>ctype = TChan SendDir (TNamed ''int''), cval = Some (2, 0)\<rparr>,
         2 := \<lparr>ctype = TChan RecvDir (TNamed ''int''), cval = Some (2, 0)\<rparr>)\<rparr>"

text \<open>The graph after \<^verbatim>\<open>ConnectBuf("C", "Out", "C", "In", 0)\<close>, then
  \<^verbatim>\<open>ConnectBuf("A", "Out", "B", "In", 0)\<close>, then \<^verbatim>\<open>ConnectBuf("C", "Out", "B", "In", 0)\<close>.\<close>

definition ex_CC :: state where
  "ex_CC = ex_graph
     \<lparr>connections :=
        [\<lparr>src = c_Out, tgt = c_In, channel = ChanVal t_chan (Some (2, 0)), buffer = 0\<rparr>],
      chanListenersCount := [2 \<mapsto> 1],
      heap := ex_heap
        (3 := \<lparr>ctype = TChan SendDir (TNamed ''int''), cval = Some (2, 0)\<rparr>,
         2 := \<lparr>ctype = TChan RecvDir (TNamed ''int''), cval = Some (2, 0)\<rparr>),
      next_chan := 3\<rparr>"

definition ex_CC_AB :: state where
  "ex_CC_AB = ex_CC
     \<lparr>connections :=
        [\<lparr>src = c_Out, tgt = c_In, channel = ChanVal t_chan (Some (2, 0)), buffer = 0\<rparr>,
         \<lparr>src = a_Out, tgt = b_In, channel = ChanVal t_chan (Some (3, 0)), buffer = 0\<rparr>],
      chanListenersCount := [2 \<mapsto> 1, 3 \<mapsto> 1],
      heap := (heap ex_CC)
        (0 := \<lparr>ctype = TChan SendDir (TNamed ''int''), cval = Some (3, 0)\<rparr>,
         1 := \<lparr>ctype = TChan RecvDir (TNamed ''int''), cval = Some (3, 0)\<rparr>),
      next_chan := 4\<rparr>"

definition ex_CC_AB_CB :: state where
  "ex_CC_AB_CB = ex_CC_AB
     \<lparr>connections :=
        [\<lparr>src = c_Out, tgt = c_In, channel = ChanVal t_chan (Some (2, 0)), buffer = 0\<rparr>,
         \<lparr>src = a_Out, tgt = b_In, channel = ChanVal t_chan (Some (3, 0)), buffer = 0\<rparr>,
         \<lparr>src = c_Out, tgt = b_In, channel = ChanVal t_chan (Some (2, 0)), buffer = 0\<rparr>],
      heap := (heap ex_CC_AB)
        (3 := \<lparr>ctype = TChan SendDir (TNamed ''int''), cval = Some (2, 0)\<rparr>,
         1 := \<lparr>ctype = TChan RecvDir (TNamed ''int''), cval = Some (2, 0)\<rparr>)\<rparr>"

text \<open>After \<^verbatim>\<open>ConnectBuf("E", "Out", "B", "In", 10)\<close> on the first graph: the connection
  holds the field \<^verbatim>\<open>E.Out\<close> itself, whose channel is the unbuffered one at address 1.\<close>

definition ex_EB :: state where
  "ex_EB = ex_graph
     \<lparr>connections :=
        [\<lparr>src = e_Out, tgt = b_In, channel = FieldVal 5 True, buffer = 10\<rparr>],
      chanListenersCount := [1 \<mapsto> 1],
      heap := ex_heap
        (5 := \<lparr>ctype = TChan BothDir (TNamed ''int''), cval = Some (1, 0)\<rparr>,
         1 := \<lparr>ctype = TChan RecvDir (TNamed ''int''), cval = Some (1, 0)\<rparr>)\<rparr>"


section \<open>Properties of parseAddress\<close>

lemma before_last_snoc: "before_last c (t @ [r]) = (if r = c then t else before_last c t)"
  by (simp add: before_last_def)

lemma split_last: "c \<in> set t \<Longrightarrow> t = before_last c t @ c # after_last c t"
proof -
  assume c: "c \<in> set t"
  let ?P = "\<lambda>x. x \<noteq> c"
  have ne: "dropWhile ?P (rev t) \<noteq> []" using c by simp
  then have hd: "hd (dropWhile ?P (rev t)) = c" using hd_dropWhile[of ?P "rev t"] by simp
  have "rev t = takeWhile ?P (rev t) @ dropWhile ?P (rev t)" by simp
  also have "dropWhile ?P (rev t) = c # tl (dropWhile ?P (rev t))"
    using ne hd by (metis list.collapse)
  finally have "rev (rev t) = rev (takeWhile ?P (rev t) @ c # tl (dropWhile ?P (rev t)))"
    by simp
  then show ?thesis by (simp add: before_last_def after_last_def)
qed

lemma after_last_none: "c \<notin> set t \<Longrightarrow> after_last c t = t"
proof -
  assume "c \<notin> set t"
  then have "takeWhile (\<lambda>x. x \<noteq> c) (rev t) = rev t"
    by auto
  then show ?thesis unfolding after_last_def by (simp only: rev_rev_ident)
qed

lemma drop_after_last:
  "c \<in> set t \<Longrightarrow> drop (Suc (length (before_last c t))) t = after_last c t"
proof -
  assume c: "c \<in> set t"
  have "drop (Suc (length (before_last c t))) (before_last c t @ c # after_last c t) =
        after_last c t"
    by simp
  then show ?thesis using split_last[OF c] by simp
qed

lemma before_last_length: "c \<in> set t \<Longrightarrow> Suc (length (before_last c t)) \<le> length t"
proof -
  assume c: "c \<in> set t"
  have "length (before_last c t @ c # after_last c t) = length t"
    using split_last[OF c] by simp
  then show ?thesis by simp
qed

text \<open>One iteration of the loop takes the state for the prefix \<open>pre\<close> to the state for
  \<open>pre @ [r]\<close>; in particular the slice \<^verbatim>\<open>port[keyPos:i]\<close> is always in range.\<close>

lemma loop_state_step:
  "(case loop_state (pre @ r # rs) pre of (keyPos, ky, nport) \<Rightarrow>
      parse_loop (pre @ r # rs) (length pre) (r # rs) (keyPos, ky, nport)) =
   parse_loop (pre @ r # rs) (Suc (length pre)) rs (loop_state (pre @ r # rs) (pre @ [r]))"
proof -
  consider (lb) "r = CHR ''[''" | (rb) "r = CHR '']''"
    | (other) "r \<noteq> CHR ''[''" "r \<noteq> CHR '']''"
    by blast
  then show ?thesis
  proof cases
    case lb
    then show ?thesis
      by (simp add: loop_state_def key_of_text_def before_last_snoc)
  next
    case rb
    show ?thesis
    proof (cases "CHR ''['' \<in> set pre")
      case True
      have le: "Suc (length (before_last CHR ''['' pre)) \<le> length pre"
        using before_last_length[OF True] .
      have "take (length pre - Suc (length (before_last CHR ''['' pre)))
              (drop (Suc (length (before_last CHR ''['' pre))) (pre @ r # rs)) =
            drop (Suc (length (before_last CHR ''['' pre))) pre"
        using le by simp
      then show ?thesis using rb True le
        by (simp add: loop_state_def key_of_text_def before_last_snoc slice_def drop_after_last)
    next
      case False
      then show ?thesis using rb
        by (simp add: loop_state_def key_of_text_def before_last_snoc slice_def after_last_none)
    qed
  next
    case other
    then show ?thesis
      by (simp add: loop_state_def key_of_text_def before_last_snoc)
  qed
qed

lemma parse_loop_state:
  "parse_loop (pre @ rs) (length pre) rs (loop_state (pre @ rs) pre) =
   Some (loop_state (pre @ rs) (pre @ rs))"
proof (induction rs arbitrary: pre)
  case Nil
  show ?case by simp
next
  case (Cons r rs)
  have "parse_loop (pre @ r # rs) (length pre) (r # rs) (loop_state (pre @ r # rs) pre) =
        parse_loop (pre @ r # rs) (Suc (length pre)) rs (loop_state (pre @ r # rs) (pre @ [r]))"
    using loop_state_step[of pre r rs] by (simp add: loop_state_def)
  also have "\<dots> = Some (loop_state (pre @ r # rs) (pre @ r # rs))"
    using Cons.IH[of "pre @ [r]"] by simp
  finally show ?case .
qed

lemma parseAddress_eq:
  "parseAddress pr pt = Some \<lparr>proc = pr, port = port_of_text pt, key = key_of_text pt\<rparr>"
proof -
  have "loop_state pt [] = (0, [], pt)" by (simp add: loop_state_def key_of_text_def)
  then have "parse_loop pt 0 pt (0, [], pt) = Some (loop_state pt pt)"
    using parse_loop_state[of "[]" pt] by simp
  then show ?thesis
    by (simp add: parseAddress_def loop_state_def port_of_text_def)
qed

text \<open>
  Claim C6, as stated, fails: with two bracket pairs the port name does not end at the
  first \<open>[\<close> and the key does not start there. On \<^verbatim>\<open>In[1][2]\<close> the code returns the
  port \<^verbatim>\<open>In[1]\<close> and the key \<^verbatim>\<open>2\<close>, where the claim's reading gives the port
  \<^verbatim>\<open>In\<close> and the key \<^verbatim>\<open>1][2\<close>.
\<close>

theorem parseAddress_first_bracket_counterexample:
  "parseAddress ''P'' ''In[1][2]'' = Some \<lparr>proc = ''P'', port = ''In[1]'', key = ''2''\<rparr>
   \<and> spec_port ''In[1][2]'' = ''In''
   \<and> spec_key ''In[1][2]'' = ''1][2''
   \<and> parseAddress ''P'' ''In[1][2]''
       \<noteq> Some \<lparr>proc = ''P'', port = spec_port ''In[1][2]'', key = spec_key ''In[1][2]''\<rparr>"
  by (simp add: parseAddress_def slice_def spec_port_def spec_key_def before_last_def)

text \<open>
  Claim C6, amended: for every process name and port text \<^verbatim>\<open>parseAddress\<close> returns
  (it never panics on its slice) the address whose process is the given name, whose port
  is the text before its last \<open>[\<close> (the whole text when it has no \<open>[\<close>), and whose key
  is the verbatim text that ends before the last \<open>]\<close> and starts after the last \<open>[\<close> in
  front of that \<open>]\<close> (at the start of the text when there is none; empty when the text
  has no \<open>]\<close>). A text without brackets is returned unchanged with the empty key, and
  \<^verbatim>\<open>parseAddress("P","In")\<close> and \<^verbatim>\<open>parseAddress("P","In[5]")\<close> are as the claim says.
\<close>

theorem parseAddress_last_bracket:
  "parseAddress pr pt = Some \<lparr>proc = pr, port = port_of_text pt, key = key_of_text pt\<rparr>
   \<and> (CHR ''['' \<notin> set pt \<and> CHR '']'' \<notin> set pt \<longrightarrow>
        parseAddress pr pt = Some \<lparr>proc = pr, port = pt, key = []\<rparr>)
   \<and> parseAddress ''P'' ''In'' = Some \<lparr>proc = ''P'', port = ''In'', key = []\<rparr>
   \<and> parseAddress ''P'' ''In[5]'' = Some \<lparr>proc = ''P'', port = ''In'', key = ''5''\<rparr>"
proof -
  have "CHR ''['' \<notin> set pt \<and> CHR '']'' \<notin> set pt \<longrightarrow>
        parseAddress pr pt = Some \<lparr>proc = pr, port = pt, key = []\<rparr>"
    by (simp add: parseAddress_eq port_of_text_def key_of_text_def)
  moreover have "parseAddress ''P'' ''In'' = Some \<lparr>proc = ''P'', port = ''In'', key = []\<rparr>"
    by (simp add: parseAddress_def)
  moreover have "parseAddress ''P'' ''In[5]'' = Some \<lparr>proc = ''P'', port = ''In'', key = ''5''\<rparr>"
    by (simp add: parseAddress_def slice_def)
  ultimately show ?thesis using parseAddress_eq by simp
qed

theorem parseAddress_last_bracket_witness:
  "parseAddress ''P'' ''a[b]c[d]e'' = Some \<lparr>proc = ''P'', port = ''a[b]c'', key = ''d''\<rparr>
   \<and> CHR ''['' \<notin> set ''Out'' \<and> CHR '']'' \<notin> set ''Out''
   \<and> parseAddress ''P'' ''Out'' = Some \<lparr>proc = ''P'', port = ''Out'', key = []\<rparr>"
  using parseAddress_last_bracket[of "''P''" "''a[b]c[d]e''"]
        parseAddress_last_bracket[of "''P''" "''Out''"]
  by (simp add: port_of_text_def key_of_text_def before_last_def after_last_def)

text \<open>
  Claim C9: for every process name \<open>p\<close>, \<^verbatim>\<open>parseAddress(p, "In[]")\<close> and
  \<^verbatim>\<open>parseAddress(p, "In[")\<close> are the address that \<^verbatim>\<open>parseAddress(p, "In")\<close> returns,
  with port \<^verbatim>\<open>In\<close> and the empty key; so \<^verbatim>\<open>findExistingChan\<close> finds the same channel
  for each of them, in every graph and direction.
\<close>

theorem parseAddress_empty_bracket:
  "parseAddress p ''In[]'' = Some \<lparr>proc = p, port = ''In'', key = []\<rparr>
   \<and> parseAddress p ''In['' = Some \<lparr>proc = p, port = ''In'', key = []\<rparr>
   \<and> parseAddress p ''In'' = Some \<lparr>proc = p, port = ''In'', key = []\<rparr>
   \<and> parseAddress p ''In[]'' = parseAddress p ''In''
   \<and> parseAddress p ''In['' = parseAddress p ''In''
   \<and> map_option (\<lambda>a. findExistingChan n a dir) (parseAddress p ''In[]'')
       = map_option (\<lambda>a. findExistingChan n a dir) (parseAddress p ''In'')
   \<and> map_option (\<lambda>a. findExistingChan n a dir) (parseAddress p ''In['')
       = map_option (\<lambda>a. findExistingChan n a dir) (parseAddress p ''In'')"
  by (simp add: parseAddress_def slice_def)

section \<open>Properties of the reference counter\<close>

lemma Pointer_count_upd [simp]:
  "Pointer (n\<lparr>chanListenersCount := m\<rparr>) c = Pointer n c"
  by (cases c) (simp_all add: Pointer_def)

lemma dec_times_zero:
  "Pointer n c = Some p \<Longrightarrow> count_of (chanListenersCount n) p = 0 \<Longrightarrow>
   decChanListenersCount n c = Ret (True, n)"
  by (simp add: decChanListenersCount_def)

lemma dec_step:
  "Pointer n c = Some p \<Longrightarrow> count_of (chanListenersCount n) p = Suc k \<Longrightarrow>
   decChanListenersCount n c =
     Ret (k = 0, n\<lparr>chanListenersCount := (chanListenersCount n)(p \<mapsto> k)\<rparr>)"
  by (simp add: decChanListenersCount_def Let_def)

lemma dec_times_count:
  "Pointer n c = Some p \<Longrightarrow> count_of (chanListenersCount n) p = Suc k \<Longrightarrow>
   dec_times (Suc k) n c = Ret (replicate k False @ [True])"
proof (induction k arbitrary: n)
  case 0
  then show ?case by (simp add: dec_step)
next
  case (Suc k)
  let ?n1 = "n\<lparr>chanListenersCount := (chanListenersCount n)(p \<mapsto> Suc k)\<rparr>"
  have step: "decChanListenersCount n c = Ret (False, ?n1)"
    using dec_step[OF Suc.prems(1) Suc.prems(2)] by simp
  have "Pointer ?n1 c = Some p" using Suc.prems(1) by simp
  moreover have "count_of (chanListenersCount ?n1) p = Suc k" by (simp add: count_of_def)
  ultimately have "dec_times (Suc k) ?n1 c = Ret (replicate k False @ [True])"
    by (rule Suc.IH)
  then show ?case using step by simp
qed

text \<open>
  Claim C4: a call of \<^verbatim>\<open>decChanListenersCount\<close> on a channel returns (it does not fail),
  and it returns true exactly when the count stored for the channel is zero after the
  call; called with the count already at 0 it returns true and changes nothing. For a
  channel whose count is \<open>N \<ge> 1\<close>, of \<open>N\<close> successive decrements the first \<open>N - 1\<close>
  return false and the \<open>N\<close>-th returns true.
\<close>

theorem decChanListenersCount_reaches_zero:
  assumes "Pointer n c = Some p"
  shows "\<exists>b n1. decChanListenersCount n c = Ret (b, n1)
           \<and> (b \<longleftrightarrow> count_of (chanListenersCount n1) p = 0)
           \<and> count_of (chanListenersCount n1) p = count_of (chanListenersCount n) p - 1
           \<and> (count_of (chanListenersCount n) p = 0 \<longrightarrow> b \<and> n1 = n)
           \<and> (\<forall>N\<ge>1. count_of (chanListenersCount n) p = N \<longrightarrow>
                 dec_times N n c = Ret (replicate (N - 1) False @ [True]))"
proof (cases "count_of (chanListenersCount n) p")
  case 0
  then show ?thesis using assms dec_times_zero[OF assms] by auto
next
  case (Suc k)
  have "\<forall>N\<ge>1. count_of (chanListenersCount n) p = N \<longrightarrow>
          dec_times N n c = Ret (replicate (N - 1) False @ [True])"
    using dec_times_count[OF assms Suc] Suc by simp
  then show ?thesis using dec_step[OF assms Suc] Suc by (simp add: count_of_def)
qed

theorem decChanListenersCount_reaches_zero_witness:
  "Pointer ex_counted ex_chan7 = Some 7
   \<and> count_of (chanListenersCount ex_counted) 7 = 3
   \<and> decChanListenersCount ex_counted ex_chan7
        = Ret (False, ex_counted\<lparr>chanListenersCount := (chanListenersCount ex_counted)(7 \<mapsto> 2)\<rparr>)
   \<and> dec_times 3 ex_counted ex_chan7 = Ret [False, False, True]"
proof -
  have p: "Pointer ex_counted ex_chan7 = Some 7"
    by (simp add: Pointer_def ex_chan7_def)
  have c: "count_of (chanListenersCount ex_counted) 7 = 3"
    by (simp add: count_of_def ex_counted_def)
  have d: "decChanListenersCount ex_counted ex_chan7
        = Ret (False, ex_counted\<lparr>chanListenersCount := (chanListenersCount ex_counted)(7 \<mapsto> 2)\<rparr>)"
    using p c by (simp add: decChanListenersCount_def Let_def)
  from decChanListenersCount_reaches_zero[OF p]
  have "\<forall>N\<ge>1. count_of (chanListenersCount ex_counted) 7 = N \<longrightarrow>
          dec_times N ex_counted ex_chan7 = Ret (replicate (N - 1) False @ [True])"
    by blast
  then have "dec_times 3 ex_counted ex_chan7 = Ret (replicate (3 - 1) False @ [True])"
    using c by simp
  then have "dec_times 3 ex_counted ex_chan7 = Ret [False, False, True]"
    by (simp add: numeral_2_eq_2)
  then show ?thesis using p c d by simp
qed

section \<open>Properties of the wiring steps\<close>

lemma parseAddress_addr_of: "parseAddress pr pt = Some (addr_of pr pt)"
  by (simp add: parseAddress_eq addr_of_def)

lemma live_Pointer: "live n v \<Longrightarrow> \<exists>p. Pointer n v = Some p"
  by (cases v) (auto simp: live_def Pointer_def split: option.splits)

lemma reuse_chan_eq:
  "reuse_chan n sa ra =
     (if live n (findExistingChan n sa SendDir) then Ret (findExistingChan n sa SendDir, False, n)
      else if live n (findExistingChan n ra RecvDir) then
        Ret (findExistingChan n ra RecvDir, False,
             n\<lparr>chanListenersCount := (chanListenersCount n)
                 (the (Pointer n (findExistingChan n ra RecvDir)) \<mapsto>
                    count_of (chanListenersCount n) (the (Pointer n (findExistingChan n ra RecvDir))) + 1)\<rparr>)
      else Ret (findExistingChan n ra RecvDir, True, n))"
proof -
  { assume l: "live n (findExistingChan n ra RecvDir)"
    then obtain p where "Pointer n (findExistingChan n ra RecvDir) = Some p"
      using live_Pointer by blast
    then have "incChanListenersCount n (findExistingChan n ra RecvDir) =
      Ret (n\<lparr>chanListenersCount := (chanListenersCount n)
                 (the (Pointer n (findExistingChan n ra RecvDir)) \<mapsto>
                    count_of (chanListenersCount n) (the (Pointer n (findExistingChan n ra RecvDir))) + 1)\<rparr>)"
      by (simp add: incChanListenersCount_def Let_def) }
  then show ?thesis
    by (auto simp: reuse_chan_def Let_def live_def)
qed

text \<open>Setting a port to a value that holds a channel keeps every such value.\<close>

lemma Set_val_live:
  assumes "Set_val n p x = Some n1" "live n x" "live n v"
  shows "live n1 v"
  using assms
  by (cases p; cases v; cases x)
     (auto simp: Set_val_def live_def IsNil_def split: if_splits option.splits)

lemma Set_val_frame:
  assumes "Set_val n p x = Some n1"
  shows "connections n1 = connections n \<and> chanListenersCount n1 = chanListenersCount n
         \<and> procs n1 = procs n \<and> next_chan n1 = next_chan n
         \<and> (\<forall>a. ctype (heap n1 a) = ctype (heap n a))"
  using assms
  by (cases p) (auto simp: Set_val_def split: if_splits option.splits)

lemma assignable_refl [simp]: "assignable t t"
proof (cases t)
  case (TChan d e)
  then show ?thesis by (cases d) simp_all
next
  case (TNamed s)
  then show ?thesis by simp
qed

lemma assignable_both [simp]: "assignable (TChan BothDir e) (TChan d e)"
  by simp

lemma validateChanDir_None:
  "validateChanDir t dir = None \<longleftrightarrow> (\<exists>d e. t = TChan d e \<and> dir_bits d AND dir_bits dir \<noteq> 0)"
  by (cases t) (auto simp: validateChanDir_def)

lemma validateChanDir_Some:
  "validateChanDir t dir = Some err \<Longrightarrow> err = NotAChannel \<or> err = WrongDirection dir"
  by (cases t) (auto simp: validateChanDir_def split: if_splits)

lemma validateCanSet_None: "validateCanSet p = None \<longleftrightarrow> (\<exists>a. p = FieldVal a True)"
  by (cases p) (auto simp: validateCanSet_def)

lemma attachPort_err:
  assumes "attachPort n p dir ch b = Ret (ch1, Some err, n2)"
  shows "n2 = n \<and> ch1 = ch \<and> (err = NotAChannel \<or> err = WrongDirection dir \<or> err = PortNotAssignable)"
  using assms
  by (auto simp: attachPort_def validateCanSet_def dest: validateChanDir_Some
           split: option.splits res.splits if_splits prod.splits)

lemma attachPort_ok:
  assumes "attachPort n p dir ch b = Ret (ch1, None, n2)"
  shows "\<exists>a d e. p = FieldVal a True \<and> ctype (heap n a) = TChan d e
           \<and> dir_bits d AND dir_bits dir \<noteq> 0
           \<and> ch1 = (if live n ch then ch else if live n p then p
                    else ChanVal (TChan BothDir e) (Some (next_chan n, b)))
           \<and> (\<not> live n ch \<and> \<not> live n p \<longrightarrow> 0 \<le> b)
           \<and> (live n ch \<longrightarrow> (\<exists>tc. Type n ch = Some tc \<and> assignable tc (TChan d e)))
           \<and> heap n2 = (heap n)(a := (heap n a)\<lparr>cval := load n ch1\<rparr>)
           \<and> next_chan n2 = (if live n ch \<or> live n p then next_chan n else next_chan n + 1)
           \<and> connections n2 = connections n
           \<and> chanListenersCount n2 = chanListenersCount n
           \<and> procs n2 = procs n
           \<and> conf_BufferSize n2 = conf_BufferSize n"
proof -
  from assms obtain t where t: "Type n p = Some t"
    by (auto simp: attachPort_def split: option.splits)
  from assms t have v: "validateChanDir t dir = None" "validateCanSet p = None"
    by (auto simp: attachPort_def split: option.splits)
  then obtain a d e where p: "p = FieldVal a True" and te: "t = TChan d e"
    and dir: "dir_bits d AND dir_bits dir \<noteq> 0"
    by (auto simp: validateChanDir_None validateCanSet_None)
  have ct: "ctype (heap n a) = TChan d e" using t p te by simp
  from assms t v obtain c1 n1 where
    sel: "selectOrMakeChan n ch p b = Ret (c1, n1)" and set: "Set_val n1 p c1 = Some n2"
    and c1: "c1 = ch1"
    by (auto simp: attachPort_def split: option.splits res.splits prod.splits)
  show ?thesis
  proof (cases "live n ch")
    case True
    then have "c1 = ch" "n1 = n" using sel by (auto simp: selectOrMakeChan_def live_def)
    then show ?thesis using True set c1 p ct dir
      by (auto simp: Set_val_def split: option.splits if_splits)
  next
    case False
    show ?thesis
    proof (cases "live n p")
      case True
      then have "c1 = p" "n1 = n" using sel False by (auto simp: selectOrMakeChan_def live_def)
      then show ?thesis using True False set c1 p ct dir
        by (auto simp: Set_val_def split: option.splits if_splits)
    next
      case np: False
      then have mk: "MakeChan n (TChan BothDir e) b = Ret (c1, n1)"
        using sel False p ct by (auto simp: selectOrMakeChan_def live_def ChanOf_def)
      then have b: "0 \<le> b" and c1': "c1 = ChanVal (TChan BothDir e) (Some (next_chan n, b))"
        and n1: "n1 = n\<lparr>next_chan := next_chan n + 1\<rparr>"
        by (auto simp: MakeChan_def split: if_splits)
      then show ?thesis using np False set c1 p ct dir
        by (auto simp: Set_val_def split: option.splits if_splits)
    qed
  qed
qed


lemma heap_upd_live:
  assumes "heap n2 = (heap n)(a := (heap n a)\<lparr>cval := load n x\<rparr>)" "live n x"
  shows "load n2 x = load n x" "live n v \<Longrightarrow> live n2 v" "live n2 x"
proof -
  show l: "load n2 x = load n x" using assms by (cases x) (auto simp: live_def)
  show "live n v \<Longrightarrow> live n2 v" using assms
    by (cases v; cases x) (auto simp: live_def IsNil_def)
  show "live n2 x" using assms l by (simp add: live_def IsNil_def)
qed

lemma attachPort_ok_live:
  assumes "attachPort n p dir ch b = Ret (ch1, None, n2)"
  shows "live n ch1" "load n2 ch1 = load n ch1" "live n2 ch1" "live n v \<Longrightarrow> live n2 v"
proof -
  from attachPort_ok[OF assms] obtain a d e where
    ch1: "ch1 = (if live n ch then ch else if live n p then p
                    else ChanVal (TChan BothDir e) (Some (next_chan n, b)))"
    and h: "heap n2 = (heap n)(a := (heap n a)\<lparr>cval := load n ch1\<rparr>)"
    by blast
  show l: "live n ch1" using ch1 by (auto simp: live_def IsNil_def)
  show "load n2 ch1 = load n ch1" using heap_upd_live(1)[OF h l] .
  show "live n2 ch1" using heap_upd_live(3)[OF h l] .
  show "live n v \<Longrightarrow> live n2 v" using heap_upd_live(2)[OF h l] .
qed

lemma live_count_upd [simp]: "live (n\<lparr>chanListenersCount := m\<rparr>) v = live n v"
  by (cases v) (simp_all add: live_def IsNil_def)

lemma live_conns_upd [simp]: "live (n\<lparr>connections := cs\<rparr>) v = live n v"
  by (cases v) (simp_all add: live_def IsNil_def)

lemma load_count_upd [simp]: "load (n\<lparr>chanListenersCount := m\<rparr>) v = load n v"
  by (cases v) simp_all

lemma load_conns_upd [simp]: "load (n\<lparr>connections := cs\<rparr>) v = load n v"
  by (cases v) simp_all

lemma Pointer_conns_upd [simp]: "Pointer (n\<lparr>connections := cs\<rparr>) v = Pointer n v"
  by (simp add: Pointer_def)

lemma Type_count_upd [simp]: "Type (n\<lparr>chanListenersCount := m\<rparr>) v = Type n v"
  by (cases v) simp_all

lemma ConnectBuf_ok:
  assumes "ConnectBuf n sn sp rn rp b = Ret (None, n')"
  shows "\<exists>sendPort recvPort ch isNew n1 ch1 n2 ch2 n3 n4.
           getProcPort n sn sp SendDir = Inr sendPort
         \<and> getProcPort n rn rp RecvDir = Inr recvPort
         \<and> reuse_chan n (addr_of sn sp) (addr_of rn rp) = Ret (ch, isNew, n1)
         \<and> attachPort n1 sendPort SendDir ch b = Ret (ch1, None, n2)
         \<and> attachPort n2 recvPort RecvDir ch1 b = Ret (ch2, None, n3)
         \<and> (if isNew then incChanListenersCount n3 ch1 else Ret n3) = Ret n4
         \<and> n' = n4\<lparr>connections := connections n4 @
                    [\<lparr>src = addr_of sn sp, tgt = addr_of rn rp, channel = ch1, buffer = b\<rparr>]\<rparr>"
  using assms
  by (auto simp: ConnectBuf_def parseAddress_addr_of
           split: sum.splits res.splits prod.splits option.splits split del: if_split)

lemma find_loop_append:
  "find_loop (xs @ [c]) a dir =
     (if \<exists>x\<in>set xs. conn_addr dir x = a then find_loop xs a dir
      else if conn_addr dir c = a then channel c else ZeroValue)"
  by (induction xs) (auto simp: conn_addr_def Let_def)

lemma find_loop_nomatch:
  "\<forall>c\<in>set xs. live n (channel c) \<Longrightarrow> \<not> live n (find_loop xs a dir) \<Longrightarrow>
   \<forall>x\<in>set xs. conn_addr dir x \<noteq> a"
  by (induction xs) (auto simp: conn_addr_def Let_def split: if_splits)

lemma find_loop_match:
  "\<exists>x\<in>set xs. conn_addr dir x = a \<Longrightarrow>
   \<exists>x\<in>set xs. conn_addr dir x = a \<and> find_loop xs a dir = channel x"
  by (induction xs) (auto simp: conn_addr_def Let_def split: if_splits)

lemma Pointer_load: "load n v = load m v \<Longrightarrow> Pointer n v = Pointer m v"
  by (simp add: Pointer_def)

lemma live_load: "load n v = load m v \<Longrightarrow> live n v = live m v"
  by (simp add: live_def IsNil_def)

lemma inc_Ret:
  "Pointer n c = Some p \<Longrightarrow>
   incChanListenersCount n c =
     Ret (n\<lparr>chanListenersCount := (chanListenersCount n)(p \<mapsto> count_of (chanListenersCount n) p + 1)\<rparr>)"
  by (simp add: incChanListenersCount_def Let_def)

lemma attachPort_ok_frame:
  assumes "attachPort n p dir ch b = Ret (ch1, None, n2)"
  shows "connections n2 = connections n" "chanListenersCount n2 = chanListenersCount n"
    "procs n2 = procs n" "live n ch \<Longrightarrow> ch1 = ch"
proof -
  from attachPort_ok[OF assms] obtain a d e where
    "ch1 = (if live n ch then ch else if live n p then p
                    else ChanVal (TChan BothDir e) (Some (next_chan n, b)))"
    "connections n2 = connections n" "chanListenersCount n2 = chanListenersCount n"
    "procs n2 = procs n"
    by blast
  then show "connections n2 = connections n" "chanListenersCount n2 = chanListenersCount n"
    "procs n2 = procs n" "live n ch \<Longrightarrow> ch1 = ch"
    by simp_all
qed

lemma reuse_chan_frame:
  assumes "reuse_chan n sa ra = Ret (ch, isNew, n1)"
  shows "heap n1 = heap n" "connections n1 = connections n" "procs n1 = procs n"
    "next_chan n1 = next_chan n"
  using assms by (simp_all add: reuse_chan_eq split: if_splits) auto

lemma ConnectBuf_ok_summary:
  assumes ok: "ConnectBuf n sn sp rn rp b = Ret (None, n')"
  shows "\<exists>ch1 p. connections n' =
             connections n @ [\<lparr>src = addr_of sn sp, tgt = addr_of rn rp, channel = ch1, buffer = b\<rparr>]
         \<and> live n' ch1 \<and> Pointer n' ch1 = Some p \<and> Pointer n ch1 = Some p
         \<and> (\<forall>v. live n v \<longrightarrow> live n' v)
         \<and> (live n (findExistingChan n (addr_of sn sp) SendDir) \<longrightarrow>
               ch1 = findExistingChan n (addr_of sn sp) SendDir
               \<and> chanListenersCount n' = chanListenersCount n)
         \<and> (\<not> live n (findExistingChan n (addr_of sn sp) SendDir) \<longrightarrow>
               chanListenersCount n' =
                 (chanListenersCount n)(p \<mapsto> count_of (chanListenersCount n) p + 1))
         \<and> (\<not> live n (findExistingChan n (addr_of sn sp) SendDir)
              \<and> live n (findExistingChan n (addr_of rn rp) RecvDir) \<longrightarrow>
               ch1 = findExistingChan n (addr_of rn rp) RecvDir \<and> Pointer n ch1 = Some p)"
proof -
  let ?sa = "addr_of sn sp" and ?ra = "addr_of rn rp"
  let ?fs = "findExistingChan n ?sa SendDir" and ?fr = "findExistingChan n ?ra RecvDir"
  from ConnectBuf_ok[OF ok] obtain sendPort recvPort ch isNew n1 ch1 n2 ch2 n3 n4 where
    re: "reuse_chan n ?sa ?ra = Ret (ch, isNew, n1)"
    and a1: "attachPort n1 sendPort SendDir ch b = Ret (ch1, None, n2)"
    and a2: "attachPort n2 recvPort RecvDir ch1 b = Ret (ch2, None, n3)"
    and reg: "(if isNew then incChanListenersCount n3 ch1 else Ret n3) = Ret n4"
    and n': "n' = n4\<lparr>connections := connections n4 @
                    [\<lparr>src = ?sa, tgt = ?ra, channel = ch1, buffer = b\<rparr>]\<rparr>"
    by blast
  note rf = reuse_chan_frame[OF re]
  have ld1: "load n1 v = load n v" for v using rf(1) by (cases v) simp_all
  have lv1: "live n1 v = live n v" for v using ld1 by (rule live_load)
  note l1 = attachPort_ok_live[OF a1]
  have ch2: "ch2 = ch1" using attachPort_ok_frame(4)[OF a2 l1(3)] .
  note l2 = attachPort_ok_live[OF a2[unfolded ch2]]
  have ld3: "load n3 ch1 = load n ch1" using l2(2) l1(2) ld1 by simp
  have lv3: "live n v \<Longrightarrow> live n3 v" for v using l1(4) l2(4) lv1 by blast
  obtain p where p: "Pointer n3 ch1 = Some p" using live_Pointer[OF l2(3)] by blast
  have pn: "Pointer n ch1 = Some p" using Pointer_load[OF ld3] p by simp
  have cnt3: "chanListenersCount n3 = chanListenersCount n1"
    using attachPort_ok_frame(2)[OF a1] attachPort_ok_frame(2)[OF a2] by simp
  have con3: "connections n3 = connections n"
    using attachPort_ok_frame(1)[OF a1] attachPort_ok_frame(1)[OF a2] rf(2) by simp
  have n4: "n4 = (if isNew
      then n3\<lparr>chanListenersCount :=
               (chanListenersCount n3)(p \<mapsto> count_of (chanListenersCount n3) p + 1)\<rparr>
      else n3)"
    using reg inc_Ret[OF p] by (simp split: if_splits)
  have con': "connections n' =
        connections n @ [\<lparr>src = ?sa, tgt = ?ra, channel = ch1, buffer = b\<rparr>]"
    using n' n4 con3 by simp
  have lv': "live n' v = live n3 v" for v using n' n4 by simp
  have p': "Pointer n' ch1 = Some p" using n' n4 p by simp
  have cnt': "chanListenersCount n' = chanListenersCount n4" using n' by simp
  have A: "live n ?fs \<longrightarrow> ch1 = ?fs \<and> chanListenersCount n' = chanListenersCount n"
  proof
    assume l: "live n ?fs"
    then have r: "ch = ?fs" "isNew = False" "n1 = n" using re by (auto simp: reuse_chan_eq)
    have "ch1 = ch" using attachPort_ok_frame(4)[OF a1] l r lv1 by simp
    then show "ch1 = ?fs \<and> chanListenersCount n' = chanListenersCount n"
      using r cnt' n4 cnt3 by simp
  qed
  have B: "\<not> live n ?fs \<and> live n ?fr \<longrightarrow> ch1 = ?fr \<and> Pointer n ch1 = Some p
       \<and> chanListenersCount n' = (chanListenersCount n)(p \<mapsto> count_of (chanListenersCount n) p + 1)"
  proof
    assume l: "\<not> live n ?fs \<and> live n ?fr"
    then have r: "ch = ?fr" "isNew = False"
      "n1 = n\<lparr>chanListenersCount := (chanListenersCount n)
                 (the (Pointer n ?fr) \<mapsto> count_of (chanListenersCount n) (the (Pointer n ?fr)) + 1)\<rparr>"
      using re by (auto simp: reuse_chan_eq)
    have e: "ch1 = ?fr" using attachPort_ok_frame(4)[OF a1] l r(1) lv1 by simp
    then have "the (Pointer n ?fr) = p" using pn by simp
    then have "chanListenersCount n1 =
       (chanListenersCount n)(p \<mapsto> count_of (chanListenersCount n) p + 1)"
      using r(3) by simp
    then show "ch1 = ?fr \<and> Pointer n ch1 = Some p
       \<and> chanListenersCount n' = (chanListenersCount n)(p \<mapsto> count_of (chanListenersCount n) p + 1)"
      using e pn cnt' n4 r(2) cnt3 by simp
  qed
  have C: "\<not> live n ?fs \<and> \<not> live n ?fr \<longrightarrow>
       chanListenersCount n' = (chanListenersCount n)(p \<mapsto> count_of (chanListenersCount n) p + 1)"
  proof
    assume l: "\<not> live n ?fs \<and> \<not> live n ?fr"
    then have r: "isNew = True" "n1 = n" using re by (auto simp: reuse_chan_eq)
    then show "chanListenersCount n' = (chanListenersCount n)(p \<mapsto> count_of (chanListenersCount n) p + 1)"
      using cnt' n4 cnt3 by simp
  qed
  have D: "\<forall>v. live n v \<longrightarrow> live n' v" using lv3 lv' by simp
  have E: "live n' ch1" using l2(3) lv' by simp
  show ?thesis using con' E p' pn D A B C by blast
qed

lemma addr_of_eq: "parseAddress pr' pt' = parseAddress pr pt \<Longrightarrow> addr_of pr' pt' = addr_of pr pt"
  by (simp add: parseAddress_addr_of)

lemma find_after_append:
  assumes inv: "\<forall>c\<in>set xs. live n (channel c)"
    and k: "conn_addr dir k = a"
    and old: "live n (find_loop xs a dir) \<longrightarrow> channel k = find_loop xs a dir"
  shows "find_loop (xs @ [k]) a dir = channel k"
proof (cases "\<exists>x\<in>set xs. conn_addr dir x = a")
  case True
  then obtain x where "x \<in> set xs" "find_loop xs a dir = channel x"
    using find_loop_match by blast
  then have "live n (find_loop xs a dir)" using inv by simp
  then show ?thesis using True old by (simp add: find_loop_append)
next
  case False
  then show ?thesis using k by (simp add: find_loop_append)
qed

text \<open>How a call of \<^verbatim>\<open>ConnectBuf\<close> can end.\<close>

lemma reuse_chan_Ret: "\<exists>ch isNew n1. reuse_chan n sa ra = Ret (ch, isNew, n1)"
  by (auto simp: reuse_chan_eq)

lemma reuse_chan_found:
  assumes "reuse_chan n sa ra = Ret (ch, isNew, n1)"
  shows "ch = (if live n (findExistingChan n sa SendDir) then findExistingChan n sa SendDir
               else findExistingChan n ra RecvDir)"
    and "isNew = (\<not> live n ch)"
  using assms by (auto simp: reuse_chan_eq split: if_splits)

lemma getProcPort_err:
  "getProcPort n pn pt dir = Inl e \<Longrightarrow>
   e = ProcessNotFound pn \<or> e = ProcessNotSettable pn \<or> e = PortNotFound pn pt"
  by (auto simp: getProcPort_def Let_def split: option.splits process.splits if_splits sum.splits)

lemma ConnectBuf_resolved:
  assumes "getProcPort n sn sp SendDir = Inr sendPort"
    and "getProcPort n rn rp RecvDir = Inr recvPort"
    and "reuse_chan n (addr_of sn sp) (addr_of rn rp) = Ret (ch, isNew, n1)"
  shows "ConnectBuf n sn sp rn rp b =
     (case attachPort n1 sendPort SendDir ch b of
        Panic \<Rightarrow> Panic
      | Ret (ch1, Some err, n2) \<Rightarrow> Ret (Some (ErrConnectPort sn sp err), n2)
      | Ret (ch1, None, n2) \<Rightarrow>
     (case attachPort n2 recvPort RecvDir ch1 b of
        Panic \<Rightarrow> Panic
      | Ret (ch2, Some err, n3) \<Rightarrow> Ret (Some (ErrConnectPort rn rp err), n3)
      | Ret (ch2, None, n3) \<Rightarrow>
     (case (if isNew then incChanListenersCount n3 ch1 else Ret n3) of
        Panic \<Rightarrow> Panic
      | Ret n4 \<Rightarrow>
          Ret (None, n4\<lparr>connections := connections n4 @
                 [\<lparr>src = addr_of sn sp, tgt = addr_of rn rp, channel = ch1, buffer = b\<rparr>]\<rparr>))))"
  using assms by (simp add: ConnectBuf_def parseAddress_addr_of)

lemma ConnectBuf_unresolved:
  "getProcPort n sn sp SendDir = Inl e \<Longrightarrow>
   ConnectBuf n sn sp rn rp b = Ret (Some (ErrConnect e), n)"
  "getProcPort n sn sp SendDir = Inr sendPort \<Longrightarrow> getProcPort n rn rp RecvDir = Inl e \<Longrightarrow>
   ConnectBuf n sn sp rn rp b = Ret (Some (ErrConnect e), n)"
  by (simp_all add: ConnectBuf_def parseAddress_addr_of)


lemma ConnectBuf_err:
  assumes "ConnectBuf n sn sp rn rp b = Ret (Some e, n')"
  shows "connections n' = connections n"
    and "e \<in> {ErrConnect (ProcessNotFound sn), ErrConnect (ProcessNotSettable sn),
              ErrConnect (PortNotFound sn sp),
              ErrConnect (ProcessNotFound rn), ErrConnect (ProcessNotSettable rn),
              ErrConnect (PortNotFound rn rp),
              ErrConnectPort sn sp NotAChannel, ErrConnectPort sn sp (WrongDirection SendDir),
              ErrConnectPort sn sp PortNotAssignable,
              ErrConnectPort rn rp NotAChannel, ErrConnectPort rn rp (WrongDirection RecvDir),
              ErrConnectPort rn rp PortNotAssignable}"
proof -
  have "connections n' = connections n \<and>
        e \<in> {ErrConnect (ProcessNotFound sn), ErrConnect (ProcessNotSettable sn),
              ErrConnect (PortNotFound sn sp),
              ErrConnect (ProcessNotFound rn), ErrConnect (ProcessNotSettable rn),
              ErrConnect (PortNotFound rn rp),
              ErrConnectPort sn sp NotAChannel, ErrConnectPort sn sp (WrongDirection SendDir),
              ErrConnectPort sn sp PortNotAssignable,
              ErrConnectPort rn rp NotAChannel, ErrConnectPort rn rp (WrongDirection RecvDir),
              ErrConnectPort rn rp PortNotAssignable}"
  proof (cases "getProcPort n sn sp SendDir")
    case (Inl e1)
    then show ?thesis using assms ConnectBuf_unresolved(1)[OF Inl] getProcPort_err[OF Inl]
      by auto
  next
    case (Inr sendPort)
    show ?thesis
    proof (cases "getProcPort n rn rp RecvDir")
      case (Inl e2)
      then show ?thesis
        using assms ConnectBuf_unresolved(2)[OF Inr Inl] getProcPort_err[OF Inl] by auto
    next
      case r: (Inr recvPort)
      obtain ch isNew n1 where re: "reuse_chan n (addr_of sn sp) (addr_of rn rp) = Ret (ch, isNew, n1)"
        using reuse_chan_Ret by blast
      note rf = reuse_chan_frame[OF re]
      note eq = ConnectBuf_resolved[OF Inr r re, of b]
      show ?thesis
      proof (cases "attachPort n1 sendPort SendDir ch b")
        case Panic
        then show ?thesis using assms eq by simp
      next
        case (Ret x)
        obtain ch1 eo n2 where x: "x = (ch1, eo, n2)" by (cases x) auto
        show ?thesis
        proof (cases eo)
          case (Some err)
          then have a1: "attachPort n1 sendPort SendDir ch b = Ret (ch1, Some err, n2)"
            using Ret x by simp
          then show ?thesis using assms eq attachPort_err[OF a1] rf by auto
        next
          case None
          then have a1: "attachPort n1 sendPort SendDir ch b = Ret (ch1, None, n2)"
            using Ret x by simp
          note fr1 = attachPort_ok_frame[OF a1]
          show ?thesis
          proof (cases "attachPort n2 recvPort RecvDir ch1 b")
            case Panic
            then show ?thesis using assms eq a1 by simp
          next
            case r2: (Ret y)
            obtain ch2 eo2 n3 where y: "y = (ch2, eo2, n3)" by (cases y) auto
            show ?thesis
            proof (cases eo2)
              case (Some err)
              then have a2: "attachPort n2 recvPort RecvDir ch1 b = Ret (ch2, Some err, n3)"
                using r2 y by simp
              then show ?thesis using assms eq a1 attachPort_err[OF a2] rf fr1 by auto
            next
              case None
              then have a2: "attachPort n2 recvPort RecvDir ch1 b = Ret (ch2, None, n3)"
                using r2 y by simp
              then show ?thesis using assms eq a1
                by (auto split: res.splits)
            qed
          qed
        qed
      qed
    qed
  qed
  then show "connections n' = connections n"
    and "e \<in> {ErrConnect (ProcessNotFound sn), ErrConnect (ProcessNotSettable sn),
              ErrConnect (PortNotFound sn sp),
              ErrConnect (ProcessNotFound rn), ErrConnect (ProcessNotSettable rn),
              ErrConnect (PortNotFound rn rp),
              ErrConnectPort sn sp NotAChannel, ErrConnectPort sn sp (WrongDirection SendDir),
              ErrConnectPort sn sp PortNotAssignable,
              ErrConnectPort rn rp NotAChannel, ErrConnectPort rn rp (WrongDirection RecvDir),
              ErrConnectPort rn rp PortNotAssignable}"
    by simp_all
qed


section \<open>Running the small network\<close>

lemmas ex_defs = ex_graph_def ex_heap_def ex_procs_def ex_AB_def ex_AB_AC_def ex_AB_CB_def
  ex_XB_def ex_XB_AB_def ex_XB_AB_AC_def ex_CC_def ex_CC_AB_def ex_CC_AB_CB_def ex_EB_def
  t_chan_def a_Out_def b_In_def c_In_def c_Out_def e_Out_def x_Out_def

lemmas run_defs = ConnectBuf_def parseAddress_def slice_def getProcPort_def FieldByName_def
  reuse_chan_def findExistingChan_def attachPort_def validateChanDir_def validateCanSet_def
  selectOrMakeChan_def IsNil_def ChanOf_def MakeChan_def Set_val_def incChanListenersCount_def
  Pointer_def count_of_def Let_def

lemma run_AB: "ConnectBuf ex_graph ''A'' ''Out'' ''B'' ''In'' 10 = Ret (None, ex_AB)"
  by (simp add: run_defs ex_defs fun_eq_iff numeral_2_eq_2[symmetric])

lemma run_AB_AC: "ConnectBuf ex_AB ''A'' ''Out'' ''C'' ''In'' 5 = Ret (None, ex_AB_AC)"
  by (simp add: run_defs ex_defs fun_eq_iff numeral_2_eq_2[symmetric])

lemma run_AB_CB: "ConnectBuf ex_AB ''C'' ''Out'' ''B'' ''In'' 5 = Ret (None, ex_AB_CB)"
  by (simp add: run_defs ex_defs fun_eq_iff numeral_2_eq_2[symmetric])

lemma conns_live_ex_graph: "conns_live ex_graph"
  by (simp add: conns_live_def ex_defs)

lemma addr_of_A_Out: "addr_of ''A'' ''Out'' = a_Out"
  using parseAddress_addr_of[of "''A''" "''Out''"] by (simp add: parseAddress_def a_Out_def)

lemma addr_of_B_In: "addr_of ''B'' ''In'' = b_In"
  using parseAddress_addr_of[of "''B''" "''In''"] by (simp add: parseAddress_def b_In_def)

lemma addr_of_C_In: "addr_of ''C'' ''In'' = c_In"
  using parseAddress_addr_of[of "''C''" "''In''"] by (simp add: parseAddress_def c_In_def)

lemma addr_of_C_Out: "addr_of ''C'' ''Out'' = c_Out"
  using parseAddress_addr_of[of "''C''" "''Out''"] by (simp add: parseAddress_def c_Out_def)

section \<open>Fan-out and fan-in\<close>

text \<open>
  Claim C1, as stated, fails: the count of the shared channel need not be 1. In the graph
  where \<^verbatim>\<open>X.Out\<close> is already connected to \<^verbatim>\<open>B.In\<close>, the calls for \<^verbatim>\<open>A.Out\<close> to
  \<^verbatim>\<open>B.In\<close> and for \<^verbatim>\<open>A.Out\<close> to \<^verbatim>\<open>C.In\<close> both succeed, with the same sender address
  and distinct receivers; the first of them joins the channel of \<^verbatim>\<open>B.In\<close> and counts
  it a second time, so the count of the channel both connections hold is 2 after both
  calls.
\<close>

theorem fan_out_count_counterexample:
  "ConnectBuf ex_graph ''X'' ''Out'' ''B'' ''In'' 0 = Ret (None, ex_XB)
   \<and> ConnectBuf ex_XB ''A'' ''Out'' ''B'' ''In'' 0 = Ret (None, ex_XB_AB)
   \<and> ConnectBuf ex_XB_AB ''A'' ''Out'' ''C'' ''In'' 0 = Ret (None, ex_XB_AB_AC)
   \<and> map src (connections ex_XB_AB_AC) = [x_Out, a_Out, a_Out]
   \<and> map tgt (connections ex_XB_AB_AC) = [b_In, b_In, c_In]
   \<and> map (Pointer ex_XB_AB_AC \<circ> channel) (connections ex_XB_AB_AC) = [Some 2, Some 2, Some 2]
   \<and> count_of (chanListenersCount ex_XB_AB_AC) 2 = 2
   \<and> count_of (chanListenersCount ex_XB_AB_AC) 2 \<noteq> 1"
  by (simp add: run_defs ex_defs fun_eq_iff numeral_2_eq_2[symmetric])

text \<open>
  Claim C1, amended: in every graph whose recorded connections all hold a channel, when
  two calls of \<^verbatim>\<open>ConnectBuf\<close> one after the other succeed with the same parsed sender
  address, both recorded connections hold the identical channel value (hence the same
  channel address), and the second call leaves the counter table as it is: it performs
  no increment. The count of the channel is exactly 1 after both calls when the first
  call found no channel to reuse and the channel it wired had no count before; otherwise
  it is the count the first call left.
\<close>

theorem fan_out_shares_channel:
  assumes inv: "conns_live n"
    and c1: "ConnectBuf n sn sp rn1 rp1 b1 = Ret (None, n1)"
    and c2: "ConnectBuf n1 sn' sp' rn2 rp2 b2 = Ret (None, n2)"
    and same: "parseAddress sn' sp' = parseAddress sn sp"
  shows "\<exists>ch p. connections n2 = connections n @
            [\<lparr>src = addr_of sn sp, tgt = addr_of rn1 rp1, channel = ch, buffer = b1\<rparr>,
             \<lparr>src = addr_of sn sp, tgt = addr_of rn2 rp2, channel = ch, buffer = b2\<rparr>]
          \<and> Pointer n1 ch = Some p \<and> Pointer n2 ch = Some p
          \<and> chanListenersCount n2 = chanListenersCount n1
          \<and> (\<not> live n (findExistingChan n (addr_of sn sp) SendDir)
               \<and> \<not> live n (findExistingChan n (addr_of rn1 rp1) RecvDir)
               \<and> count_of (chanListenersCount n) p = 0
              \<longrightarrow> count_of (chanListenersCount n2) p = 1)"
proof -
  let ?sa = "addr_of sn sp"
  let ?fs = "findExistingChan n ?sa SendDir"
  have sa: "addr_of sn' sp' = ?sa" using same by (rule addr_of_eq)
  from ConnectBuf_ok_summary[OF c1] obtain ch1 p1 where
    con1: "connections n1 = connections n @
             [\<lparr>src = ?sa, tgt = addr_of rn1 rp1, channel = ch1, buffer = b1\<rparr>]"
    and l1: "live n1 ch1" and p1: "Pointer n1 ch1 = Some p1"
    and keep: "\<forall>v. live n v \<longrightarrow> live n1 v"
    and A1: "live n ?fs \<longrightarrow> ch1 = ?fs \<and> chanListenersCount n1 = chanListenersCount n"
    and C1: "\<not> live n ?fs \<longrightarrow> chanListenersCount n1 =
                 (chanListenersCount n)(p1 \<mapsto> count_of (chanListenersCount n) p1 + 1)"
    by blast
  let ?k1 = "\<lparr>src = ?sa, tgt = addr_of rn1 rp1, channel = ch1, buffer = b1\<rparr>"
  have "find_loop (connections n @ [?k1]) ?sa SendDir = channel ?k1"
  proof (rule find_after_append[where n = n])
    show "\<forall>c\<in>set (connections n). live n (channel c)" using inv by (simp add: conns_live_def)
    show "conn_addr SendDir ?k1 = ?sa" by (simp add: conn_addr_def)
    show "live n (find_loop (connections n) ?sa SendDir) \<longrightarrow>
          channel ?k1 = find_loop (connections n) ?sa SendDir"
      using A1 by (simp add: findExistingChan_def)
  qed
  then have f2: "findExistingChan n1 ?sa SendDir = ch1"
    using con1 by (simp add: findExistingChan_def)
  from ConnectBuf_ok_summary[OF c2] obtain ch2 p2 where
    con2: "connections n2 = connections n1 @
             [\<lparr>src = addr_of sn' sp', tgt = addr_of rn2 rp2, channel = ch2, buffer = b2\<rparr>]"
    and p2: "Pointer n2 ch2 = Some p2" and p2': "Pointer n1 ch2 = Some p2"
    and A2: "live n1 (findExistingChan n1 (addr_of sn' sp') SendDir) \<longrightarrow>
               ch2 = findExistingChan n1 (addr_of sn' sp') SendDir
               \<and> chanListenersCount n2 = chanListenersCount n1"
    by blast
  have e: "ch2 = ch1" and cnt: "chanListenersCount n2 = chanListenersCount n1"
    using A2 f2 l1 sa by simp_all
  have pp: "p2 = p1" using p2' p1 e by simp
  have "\<not> live n ?fs \<and> count_of (chanListenersCount n) p1 = 0
         \<longrightarrow> count_of (chanListenersCount n2) p1 = 1"
    using C1 cnt by (simp add: count_of_def)
  then show ?thesis using con1 con2 e sa p1 p2 pp cnt by simp
qed

theorem fan_out_shares_channel_witness:
  "conns_live ex_graph
   \<and> ConnectBuf ex_graph ''A'' ''Out'' ''B'' ''In'' 10 = Ret (None, ex_AB)
   \<and> ConnectBuf ex_AB ''A'' ''Out'' ''C'' ''In'' 5 = Ret (None, ex_AB_AC)
   \<and> map channel (connections ex_AB_AC)
        = [ChanVal t_chan (Some (2, 10)), ChanVal t_chan (Some (2, 10))]
   \<and> chanListenersCount ex_AB_AC = chanListenersCount ex_AB
   \<and> count_of (chanListenersCount ex_AB_AC) 2 = 1"
proof -
  note h1 = conns_live_ex_graph and h2 = run_AB and h3 = run_AB_AC
  from fan_out_shares_channel[OF h1 h2 h3 refl] obtain ch p where
    con: "connections ex_AB_AC = connections ex_graph @
            [\<lparr>src = addr_of ''A'' ''Out'', tgt = addr_of ''B'' ''In'', channel = ch, buffer = 10\<rparr>,
             \<lparr>src = addr_of ''A'' ''Out'', tgt = addr_of ''C'' ''In'', channel = ch, buffer = 5\<rparr>]"
    and p: "Pointer ex_AB ch = Some p"
    and cnt: "chanListenersCount ex_AB_AC = chanListenersCount ex_AB"
    and one: "\<not> live ex_graph (findExistingChan ex_graph (addr_of ''A'' ''Out'') SendDir)
               \<and> \<not> live ex_graph (findExistingChan ex_graph (addr_of ''B'' ''In'') RecvDir)
               \<and> count_of (chanListenersCount ex_graph) p = 0
              \<longrightarrow> count_of (chanListenersCount ex_AB_AC) p = 1"
    by blast
  have ch: "ch = ChanVal t_chan (Some (2, 10))"
    using con by (simp add: ex_AB_AC_def)
  have p2: "p = 2" using p ch by (simp add: Pointer_def)
  have "\<not> live ex_graph (findExistingChan ex_graph (addr_of ''A'' ''Out'') SendDir)"
       "\<not> live ex_graph (findExistingChan ex_graph (addr_of ''B'' ''In'') RecvDir)"
       "count_of (chanListenersCount ex_graph) 2 = 0"
    by (simp_all add: live_def findExistingChan_def count_of_def ex_graph_def)
  then have "count_of (chanListenersCount ex_AB_AC) 2 = 1" using one p2 by simp
  moreover have "map channel (connections ex_AB_AC)
        = [ChanVal t_chan (Some (2, 10)), ChanVal t_chan (Some (2, 10))]"
    using con ch by (simp add: ex_graph_def)
  ultimately show ?thesis using h1 h2 h3 cnt by simp
qed

text \<open>
  Claim C2, as stated, fails: a second call for a different sender into the same receiver
  need not adopt the first call's channel. In the graph where \<^verbatim>\<open>C.Out\<close> is already
  connected (to \<^verbatim>\<open>C.In\<close>, by the channel at address 2), the call for \<^verbatim>\<open>A.Out\<close> to
  \<^verbatim>\<open>B.In\<close> makes a new channel (at address 3, count 1), and the call for \<^verbatim>\<open>C.Out\<close> to
  \<^verbatim>\<open>B.In\<close> then succeeds with the channel of \<^verbatim>\<open>C.Out\<close>: the lookup by sender address
  comes first. No count is incremented, and the count of the first call's channel stays
  1.
\<close>

theorem fan_in_adopts_counterexample:
  "ConnectBuf ex_graph ''C'' ''Out'' ''C'' ''In'' 0 = Ret (None, ex_CC)
   \<and> ConnectBuf ex_CC ''A'' ''Out'' ''B'' ''In'' 0 = Ret (None, ex_CC_AB)
   \<and> ConnectBuf ex_CC_AB ''C'' ''Out'' ''B'' ''In'' 0 = Ret (None, ex_CC_AB_CB)
   \<and> next_chan ex_CC = 3 \<and> next_chan ex_CC_AB = 4
   \<and> map src (connections ex_CC_AB_CB) = [c_Out, a_Out, c_Out]
   \<and> map tgt (connections ex_CC_AB_CB) = [c_In, b_In, b_In]
   \<and> map (Pointer ex_CC_AB_CB \<circ> channel) (connections ex_CC_AB_CB) = [Some 2, Some 3, Some 2]
   \<and> chanListenersCount ex_CC_AB_CB = chanListenersCount ex_CC_AB
   \<and> count_of (chanListenersCount ex_CC_AB_CB) 3 = 1
   \<and> count_of (chanListenersCount ex_CC_AB_CB) 2 = 1"
  by (simp add: run_defs ex_defs fun_eq_iff numeral_2_eq_2[symmetric])

text \<open>
  Claim C2, amended: in every graph whose recorded connections all hold a channel, when
  \<^verbatim>\<open>ConnectBuf\<close> succeeds for a sender and a receiver without finding a channel to reuse,
  and a second \<^verbatim>\<open>ConnectBuf\<close> succeeds with an equal parsed receiver address for a sender
  address that has no recorded outbound connection, then the second call adopts the first
  call's channel; it increments the count of that channel in the reuse step, upon finding
  it and before either endpoint is attached; and after the second call the count is the
  count before the first call plus 2, which is 2 when the channel had no count before.
\<close>

theorem fan_in_shares_channel:
  assumes inv: "conns_live n"
    and c1: "ConnectBuf n sn1 sp1 rn rp b1 = Ret (None, n1)"
    and new1: "\<not> live n (findExistingChan n (addr_of sn1 sp1) SendDir)"
    and new2: "\<not> live n (findExistingChan n (addr_of rn rp) RecvDir)"
    and c2: "ConnectBuf n1 sn2 sp2 rn' rp' b2 = Ret (None, n2)"
    and same: "parseAddress rn' rp' = parseAddress rn rp"
    and nofan: "\<not> live n1 (findExistingChan n1 (addr_of sn2 sp2) SendDir)"
  shows "\<exists>ch p. connections n2 = connections n @
            [\<lparr>src = addr_of sn1 sp1, tgt = addr_of rn rp, channel = ch, buffer = b1\<rparr>,
             \<lparr>src = addr_of sn2 sp2, tgt = addr_of rn rp, channel = ch, buffer = b2\<rparr>]
          \<and> Pointer n1 ch = Some p \<and> Pointer n2 ch = Some p
          \<and> reuse_chan n1 (addr_of sn2 sp2) (addr_of rn rp) =
              Ret (ch, False, n1\<lparr>chanListenersCount :=
                     (chanListenersCount n1)(p \<mapsto> count_of (chanListenersCount n1) p + 1)\<rparr>)
          \<and> count_of (chanListenersCount n1) p = count_of (chanListenersCount n) p + 1
          \<and> count_of (chanListenersCount n2) p = count_of (chanListenersCount n) p + 2
          \<and> (count_of (chanListenersCount n) p = 0 \<longrightarrow> count_of (chanListenersCount n2) p = 2)"
proof -
  let ?ra = "addr_of rn rp"
  have ra: "addr_of rn' rp' = ?ra" using same by (rule addr_of_eq)
  from ConnectBuf_ok_summary[OF c1] new1 obtain ch1 p1 where
    con1: "connections n1 = connections n @
             [\<lparr>src = addr_of sn1 sp1, tgt = ?ra, channel = ch1, buffer = b1\<rparr>]"
    and l1: "live n1 ch1" and p1: "Pointer n1 ch1 = Some p1"
    and C1: "chanListenersCount n1 =
                 (chanListenersCount n)(p1 \<mapsto> count_of (chanListenersCount n) p1 + 1)"
    by blast
  let ?k1 = "\<lparr>src = addr_of sn1 sp1, tgt = ?ra, channel = ch1, buffer = b1\<rparr>"
  have "find_loop (connections n @ [?k1]) ?ra RecvDir = channel ?k1"
  proof (rule find_after_append[where n = n])
    show "\<forall>c\<in>set (connections n). live n (channel c)" using inv by (simp add: conns_live_def)
    show "conn_addr RecvDir ?k1 = ?ra" by (simp add: conn_addr_def)
    show "live n (find_loop (connections n) ?ra RecvDir) \<longrightarrow>
          channel ?k1 = find_loop (connections n) ?ra RecvDir"
      using new2 by (simp add: findExistingChan_def)
  qed
  then have f2: "findExistingChan n1 ?ra RecvDir = ch1"
    using con1 by (simp add: findExistingChan_def)
  from ConnectBuf_ok_summary[OF c2] nofan obtain ch2 p2 where
    con2: "connections n2 = connections n1 @
             [\<lparr>src = addr_of sn2 sp2, tgt = addr_of rn' rp', channel = ch2, buffer = b2\<rparr>]"
    and p2: "Pointer n2 ch2 = Some p2"
    and C2: "chanListenersCount n2 =
                 (chanListenersCount n1)(p2 \<mapsto> count_of (chanListenersCount n1) p2 + 1)"
    and B2: "live n1 (findExistingChan n1 (addr_of rn' rp') RecvDir) \<longrightarrow>
               ch2 = findExistingChan n1 (addr_of rn' rp') RecvDir \<and> Pointer n1 ch2 = Some p2"
    by blast
  have e: "ch2 = ch1" and p2': "Pointer n1 ch2 = Some p2"
    using B2 f2 l1 ra by auto
  have pp: "p2 = p1" using p2' p1 e by simp
  have re: "reuse_chan n1 (addr_of sn2 sp2) ?ra =
              Ret (ch1, False, n1\<lparr>chanListenersCount :=
                     (chanListenersCount n1)(p1 \<mapsto> count_of (chanListenersCount n1) p1 + 1)\<rparr>)"
    using nofan f2 l1 p1 by (simp add: reuse_chan_eq)
  have k1: "count_of (chanListenersCount n1) p1 = count_of (chanListenersCount n) p1 + 1"
    using C1 by (simp add: count_of_def)
  have k2: "count_of (chanListenersCount n2) p1 = count_of (chanListenersCount n) p1 + 2"
    using C2 pp k1 by (simp add: count_of_def)
  show ?thesis using con1 con2 e ra p1 p2 pp re k1 k2 by simp
qed

theorem fan_in_shares_channel_witness:
  "conns_live ex_graph
   \<and> ConnectBuf ex_graph ''A'' ''Out'' ''B'' ''In'' 10 = Ret (None, ex_AB)
   \<and> ConnectBuf ex_AB ''C'' ''Out'' ''B'' ''In'' 5 = Ret (None, ex_AB_CB)
   \<and> map channel (connections ex_AB_CB)
        = [ChanVal t_chan (Some (2, 10)), ChanVal t_chan (Some (2, 10))]
   \<and> count_of (chanListenersCount ex_AB) 2 = 1
   \<and> count_of (chanListenersCount ex_AB_CB) 2 = 2"
proof -
  note h1 = conns_live_ex_graph and h2 = run_AB and h5 = run_AB_CB
  have h3: "\<not> live ex_graph (findExistingChan ex_graph (addr_of ''A'' ''Out'') SendDir)"
    and h4: "\<not> live ex_graph (findExistingChan ex_graph (addr_of ''B'' ''In'') RecvDir)"
    by (simp_all add: live_def findExistingChan_def ex_graph_def)
  have h7: "\<not> live ex_AB (findExistingChan ex_AB (addr_of ''C'' ''Out'') SendDir)"
    by (simp add: live_def findExistingChan_def addr_of_C_Out ex_defs)
  from fan_in_shares_channel[OF h1 h2 h3 h4 h5 refl h7] obtain ch p where
    con: "connections ex_AB_CB = connections ex_graph @
            [\<lparr>src = addr_of ''A'' ''Out'', tgt = addr_of ''B'' ''In'', channel = ch, buffer = 10\<rparr>,
             \<lparr>src = addr_of ''C'' ''Out'', tgt = addr_of ''B'' ''In'', channel = ch, buffer = 5\<rparr>]"
    and p: "Pointer ex_AB ch = Some p"
    and k1: "count_of (chanListenersCount ex_AB) p = count_of (chanListenersCount ex_graph) p + 1"
    and k2: "count_of (chanListenersCount ex_AB_CB) p = count_of (chanListenersCount ex_graph) p + 2"
    by blast
  have ch: "ch = ChanVal t_chan (Some (2, 10))"
    using con by (simp add: ex_AB_CB_def)
  have p2: "p = 2" using p ch by (simp add: Pointer_def)
  have z: "count_of (chanListenersCount ex_graph) 2 = 0"
    by (simp add: count_of_def ex_graph_def)
  have "count_of (chanListenersCount ex_AB) 2 = 1" "count_of (chanListenersCount ex_AB_CB) 2 = 2"
    using k1 k2 p2 z by simp_all
  moreover have "map channel (connections ex_AB_CB)
        = [ChanVal t_chan (Some (2, 10)), ChanVal t_chan (Some (2, 10))]"
    using con ch by (simp add: ex_graph_def)
  ultimately show ?thesis using h1 h2 h5 by simp
qed

section \<open>Failures of the sender attach step\<close>

text \<open>
  Claim C3, as stated, fails: a call whose sender port resolves to a receive-only channel
  field does not always return the wrong-direction error. The receiver is resolved before
  anything is attached; when the receiver process is missing, the call returns the
  resolver's error for the receiver, wrapped with \<^verbatim>\<open>connect:\<close> only. (The connection
  list is unchanged there too.)
\<close>

theorem sender_wrong_direction_counterexample:
  "getProcPort ex_graph ''B'' ''In'' SendDir = Inr (FieldVal 1 True)
   \<and> Type ex_graph (FieldVal 1 True) = Some (TChan RecvDir (TNamed ''int''))
   \<and> ConnectBuf ex_graph ''B'' ''In'' ''Z'' ''In'' 0
        = Ret (Some (ErrConnect (ProcessNotFound ''Z'')), ex_graph)"
  by (simp add: run_defs ex_defs)

text \<open>
  Claim C3, amended: for every \<^verbatim>\<open>ConnectBuf\<close> call in which both endpoints resolve and
  the resolved sender port slot is a receive-only channel field, the call returns the
  wrong-direction error wrapped with the sender endpoint identity, and the connection
  list and all port slots are unchanged. More generally, whenever the sender attach step
  returns an error, the call returns that error wrapped with the sender endpoint identity
  and no connection is appended; and no call that returns an error appends a connection.
\<close>

theorem sender_attach_failure:
  assumes sp: "getProcPort n sn sp SendDir = Inr sendPort"
    and rp: "getProcPort n rn rp RecvDir = Inr recvPort"
  shows "(\<forall>e. Type n sendPort = Some (TChan RecvDir e) \<longrightarrow>
            (\<exists>n'. ConnectBuf n sn sp rn rp b
                     = Ret (Some (ErrConnectPort sn sp (WrongDirection SendDir)), n')
                 \<and> connections n' = connections n \<and> heap n' = heap n))
       \<and> (\<forall>ch isNew n1 ch1 err n2.
             reuse_chan n (addr_of sn sp) (addr_of rn rp) = Ret (ch, isNew, n1)
             \<and> attachPort n1 sendPort SendDir ch b = Ret (ch1, Some err, n2)
            \<longrightarrow> ConnectBuf n sn sp rn rp b = Ret (Some (ErrConnectPort sn sp err), n2)
               \<and> connections n2 = connections n \<and> heap n2 = heap n)
       \<and> (\<forall>e n'. ConnectBuf n sn sp rn rp b = Ret (Some e, n') \<longrightarrow>
             connections n' = connections n)"
proof (intro conjI allI impI)
  fix e assume t: "Type n sendPort = Some (TChan RecvDir e)"
  obtain ch isNew n1 where re: "reuse_chan n (addr_of sn sp) (addr_of rn rp) = Ret (ch, isNew, n1)"
    using reuse_chan_Ret by blast
  note rf = reuse_chan_frame[OF re]
  have "Type n1 sendPort = Some (TChan RecvDir e)" using t rf(1) by (cases sendPort) simp_all
  then have "attachPort n1 sendPort SendDir ch b = Ret (ch, Some (WrongDirection SendDir), n1)"
    by (simp add: attachPort_def validateChanDir_def)
  then have "ConnectBuf n sn sp rn rp b
                     = Ret (Some (ErrConnectPort sn sp (WrongDirection SendDir)), n1)"
    using ConnectBuf_resolved[OF sp rp re, of b] by simp
  then show "\<exists>n'. ConnectBuf n sn sp rn rp b
                     = Ret (Some (ErrConnectPort sn sp (WrongDirection SendDir)), n')
                 \<and> connections n' = connections n \<and> heap n' = heap n"
    using rf by simp
next
  fix ch isNew n1 ch1 err n2
  assume h: "reuse_chan n (addr_of sn sp) (addr_of rn rp) = Ret (ch, isNew, n1)
             \<and> attachPort n1 sendPort SendDir ch b = Ret (ch1, Some err, n2)"
  then have re: "reuse_chan n (addr_of sn sp) (addr_of rn rp) = Ret (ch, isNew, n1)"
    and a1: "attachPort n1 sendPort SendDir ch b = Ret (ch1, Some err, n2)" by simp_all
  note rf = reuse_chan_frame[OF re]
  have "n2 = n1" using attachPort_err[OF a1] by simp
  then show "ConnectBuf n sn sp rn rp b = Ret (Some (ErrConnectPort sn sp err), n2)"
    "connections n2 = connections n" "heap n2 = heap n"
    using ConnectBuf_resolved[OF sp rp re, of b] a1 rf by simp_all
next
  fix e n' assume "ConnectBuf n sn sp rn rp b = Ret (Some e, n')"
  then show "connections n' = connections n" by (rule ConnectBuf_err(1))
qed

theorem sender_attach_failure_witness:
  "getProcPort ex_graph ''B'' ''In'' SendDir = Inr (FieldVal 1 True)
   \<and> getProcPort ex_graph ''C'' ''In'' RecvDir = Inr (FieldVal 2 True)
   \<and> Type ex_graph (FieldVal 1 True) = Some (TChan RecvDir (TNamed ''int''))
   \<and> ConnectBuf ex_graph ''B'' ''In'' ''C'' ''In'' 0
        = Ret (Some (ErrConnectPort ''B'' ''In'' (WrongDirection SendDir)), ex_graph)
   \<and> connections ex_graph = []"
proof -
  have h1: "getProcPort ex_graph ''B'' ''In'' SendDir = Inr (FieldVal 1 True)"
    and h2: "getProcPort ex_graph ''C'' ''In'' RecvDir = Inr (FieldVal 2 True)"
    and h3: "Type ex_graph (FieldVal 1 True) = Some (TChan RecvDir (TNamed ''int''))"
    by (simp_all add: getProcPort_def FieldByName_def ex_defs)
  from sender_attach_failure[OF h1 h2, of 0] h3 obtain n' where
    "ConnectBuf ex_graph ''B'' ''In'' ''C'' ''In'' 0
        = Ret (Some (ErrConnectPort ''B'' ''In'' (WrongDirection SendDir)), n')"
    by blast
  moreover have "ConnectBuf ex_graph ''B'' ''In'' ''C'' ''In'' 0
        = Ret (Some (ErrConnectPort ''B'' ''In'' (WrongDirection SendDir)), ex_graph)"
    by (simp add: run_defs ex_defs)
  ultimately show ?thesis using h1 h2 h3 by (simp add: ex_graph_def)
qed

text \<open>
  Claim C10: for every \<^verbatim>\<open>ConnectBuf\<close> call in which the lookup by sender address finds
  no channel, the lookup by receiver address finds one, and the sender attach step then
  returns an error, the call returns that error (wrapped with the sender endpoint
  identity) with no connection appended and no port slot assigned, while the count of the
  found channel is one more than before the call: the increment is not rolled back, and it
  is the only change of the state.
\<close>

theorem fan_in_increment_survives_failure:
  assumes sp: "getProcPort n sn sp SendDir = Inr sendPort"
    and rp: "getProcPort n rn rp RecvDir = Inr recvPort"
    and nf: "\<not> live n (findExistingChan n (addr_of sn sp) SendDir)"
    and fi: "live n (findExistingChan n (addr_of rn rp) RecvDir)"
    and re: "reuse_chan n (addr_of sn sp) (addr_of rn rp) = Ret (ch, isNew, n1)"
    and fail: "attachPort n1 sendPort SendDir ch b = Ret (ch1, Some err, n2)"
  shows "\<exists>p n'. ch = findExistingChan n (addr_of rn rp) RecvDir
          \<and> Pointer n ch = Some p
          \<and> ConnectBuf n sn sp rn rp b = Ret (Some (ErrConnectPort sn sp err), n')
          \<and> connections n' = connections n
          \<and> heap n' = heap n
          \<and> chanListenersCount n' =
               (chanListenersCount n)(p \<mapsto> count_of (chanListenersCount n) p + 1)
          \<and> count_of (chanListenersCount n') p = count_of (chanListenersCount n) p + 1"
proof -
  let ?fr = "findExistingChan n (addr_of rn rp) RecvDir"
  obtain p where p: "Pointer n ?fr = Some p" using live_Pointer[OF fi] by blast
  have r: "ch = ?fr" "n1 = n\<lparr>chanListenersCount :=
       (chanListenersCount n)(p \<mapsto> count_of (chanListenersCount n) p + 1)\<rparr>"
    using re nf fi p by (auto simp: reuse_chan_eq)
  have "n2 = n1" using attachPort_err[OF fail] by simp
  then have "ConnectBuf n sn sp rn rp b = Ret (Some (ErrConnectPort sn sp err), n1)"
    using ConnectBuf_resolved[OF sp rp re, of b] fail by simp
  then show ?thesis using r p by (simp add: count_of_def)
qed

theorem fan_in_increment_survives_failure_witness:
  "getProcPort ex_AB ''B'' ''In'' SendDir = Inr (FieldVal 1 True)
   \<and> getProcPort ex_AB ''B'' ''In'' RecvDir = Inr (FieldVal 1 True)
   \<and> findExistingChan ex_AB (addr_of ''B'' ''In'') SendDir = ZeroValue
   \<and> findExistingChan ex_AB (addr_of ''B'' ''In'') RecvDir = ChanVal t_chan (Some (2, 10))
   \<and> ConnectBuf ex_AB ''B'' ''In'' ''B'' ''In'' 0
       = Ret (Some (ErrConnectPort ''B'' ''In'' (WrongDirection SendDir)),
              ex_AB\<lparr>chanListenersCount := [2 \<mapsto> 2]\<rparr>)
   \<and> count_of (chanListenersCount ex_AB) 2 = 1"
proof -
  let ?n1 = "ex_AB\<lparr>chanListenersCount := [2 \<mapsto> 2]\<rparr>"
  let ?ch = "ChanVal t_chan (Some (2, 10))"
  have h1: "getProcPort ex_AB ''B'' ''In'' SendDir = Inr (FieldVal 1 True)"
    and h2: "getProcPort ex_AB ''B'' ''In'' RecvDir = Inr (FieldVal 1 True)"
    by (simp_all add: getProcPort_def FieldByName_def ex_defs)
  have f1: "findExistingChan ex_AB (addr_of ''B'' ''In'') SendDir = ZeroValue"
    and f2: "findExistingChan ex_AB (addr_of ''B'' ''In'') RecvDir = ?ch"
    by (simp_all add: findExistingChan_def addr_of_B_In ex_defs)
  have h3: "\<not> live ex_AB (findExistingChan ex_AB (addr_of ''B'' ''In'') SendDir)"
    and h4: "live ex_AB (findExistingChan ex_AB (addr_of ''B'' ''In'') RecvDir)"
    using f1 f2 by (simp_all add: live_def IsNil_def)
  have h5: "reuse_chan ex_AB (addr_of ''B'' ''In'') (addr_of ''B'' ''In'') = Ret (?ch, False, ?n1)"
    using h3 h4 f2
    by (simp add: reuse_chan_eq Pointer_def count_of_def ex_AB_def numeral_2_eq_2[symmetric])
  have h6: "attachPort ?n1 (FieldVal 1 True) SendDir ?ch 0
              = Ret (?ch, Some (WrongDirection SendDir), ?n1)"
    by (simp add: attachPort_def validateChanDir_def ex_defs)
  from fan_in_increment_survives_failure[OF h1 h2 h3 h4 h5 h6] obtain p n' where
    p: "Pointer ex_AB ?ch = Some p"
    and c: "ConnectBuf ex_AB ''B'' ''In'' ''B'' ''In'' 0
              = Ret (Some (ErrConnectPort ''B'' ''In'' (WrongDirection SendDir)), n')"
    and k: "chanListenersCount n' =
               (chanListenersCount ex_AB)(p \<mapsto> count_of (chanListenersCount ex_AB) p + 1)"
    and hp: "heap n' = heap ex_AB" and cn: "connections n' = connections ex_AB"
    by blast
  have c': "ConnectBuf ex_AB ''B'' ''In'' ''B'' ''In'' 0
       = Ret (Some (ErrConnectPort ''B'' ''In'' (WrongDirection SendDir)), ?n1)"
    using ConnectBuf_resolved[OF h1 h2 h5, of 0] h6 by simp
  have "count_of (chanListenersCount ex_AB) 2 = 1"
    by (simp add: count_of_def ex_AB_def)
  then show ?thesis using h1 h2 f1 f2 c c' by simp
qed

text \<open>Types, channels and the allocator across a successful call.\<close>

lemma Type_heap: "heap m = heap n \<Longrightarrow> Type m v = Type n v"
  by (cases v) simp_all

lemma load_heap: "heap m = heap n \<Longrightarrow> load m v = load n v"
  by (cases v) simp_all

lemma live_heap: "heap m = heap n \<Longrightarrow> live m v = live n v"
  using load_heap[of m n v] by (simp add: live_def IsNil_def)

lemma Type_heap_upd:
  "heap n2 = (heap n)(a := (heap n a)\<lparr>cval := c\<rparr>) \<Longrightarrow> Type n2 v = Type n v"
  by (cases v) simp_all

lemma attachPort_ok_Type:
  assumes "attachPort n p dir ch b = Ret (ch1, None, n2)"
  shows "Type n2 v = Type n v"
proof -
  from attachPort_ok[OF assms] obtain a d e where
    "heap n2 = (heap n)(a := (heap n a)\<lparr>cval := load n ch1\<rparr>)" by blast
  then show ?thesis by (rule Type_heap_upd)
qed

lemma ConnectBuf_ok_channel:
  assumes ok: "ConnectBuf n sn sp rn rp b = Ret (None, n')"
    and sp: "getProcPort n sn sp SendDir = Inr sendPort"
  shows "\<exists>d e ch1. Type n sendPort = Some (TChan d e)
     \<and> ch1 = (if live n (findExistingChan n (addr_of sn sp) SendDir)
              then findExistingChan n (addr_of sn sp) SendDir
              else if live n (findExistingChan n (addr_of rn rp) RecvDir)
              then findExistingChan n (addr_of rn rp) RecvDir
              else if live n sendPort then sendPort
              else ChanVal (TChan BothDir e) (Some (next_chan n, b)))
     \<and> connections n' = connections n @
           [\<lparr>src = addr_of sn sp, tgt = addr_of rn rp, channel = ch1, buffer = b\<rparr>]
     \<and> load n' ch1 = load n ch1
     \<and> Type n' ch1 = Type n ch1
     \<and> next_chan n' =
          (if live n (findExistingChan n (addr_of sn sp) SendDir)
              \<or> live n (findExistingChan n (addr_of rn rp) RecvDir) \<or> live n sendPort
           then next_chan n else next_chan n + 1)
     \<and> (\<not> live n (findExistingChan n (addr_of sn sp) SendDir)
          \<and> \<not> live n (findExistingChan n (addr_of rn rp) RecvDir) \<and> \<not> live n sendPort
         \<longrightarrow> 0 \<le> b)"
proof -
  let ?sa = "addr_of sn sp" and ?ra = "addr_of rn rp"
  let ?fs = "findExistingChan n ?sa SendDir" and ?fr = "findExistingChan n ?ra RecvDir"
  from ConnectBuf_ok[OF ok] obtain sendPort' recvPort ch isNew n1 ch1 n2 ch2 n3 n4 where
    sp': "getProcPort n sn sp SendDir = Inr sendPort'"
    and re: "reuse_chan n ?sa ?ra = Ret (ch, isNew, n1)"
    and a1': "attachPort n1 sendPort' SendDir ch b = Ret (ch1, None, n2)"
    and a2: "attachPort n2 recvPort RecvDir ch1 b = Ret (ch2, None, n3)"
    and reg: "(if isNew then incChanListenersCount n3 ch1 else Ret n3) = Ret n4"
    and n': "n' = n4\<lparr>connections := connections n4 @
                    [\<lparr>src = ?sa, tgt = ?ra, channel = ch1, buffer = b\<rparr>]\<rparr>"
    by blast
  have "sendPort' = sendPort" using sp sp' by simp
  then have a1: "attachPort n1 sendPort SendDir ch b = Ret (ch1, None, n2)" using a1' by simp
  note rf = reuse_chan_frame[OF re]
  have lv1: "live n1 v = live n v" for v using rf(1) by (rule live_heap)
  have ld1: "load n1 v = load n v" for v using rf(1) by (rule load_heap)
  have ty1: "Type n1 v = Type n v" for v using rf(1) by (rule Type_heap)
  have chf: "ch = (if live n ?fs then ?fs else ?fr)" using reuse_chan_found(1)[OF re] .
  from attachPort_ok[OF a1] obtain a d e where
    prt: "sendPort = FieldVal a True" and ct: "ctype (heap n1 a) = TChan d e"
    and c1: "ch1 = (if live n1 ch then ch else if live n1 sendPort then sendPort
                    else ChanVal (TChan BothDir e) (Some (next_chan n1, b)))"
    and nb: "\<not> live n1 ch \<and> \<not> live n1 sendPort \<longrightarrow> 0 \<le> b"
    and nc2: "next_chan n2 = (if live n1 ch \<or> live n1 sendPort then next_chan n1 else next_chan n1 + 1)"
    by blast
  have ts: "Type n sendPort = Some (TChan d e)" using prt ct rf(1) by simp
  note l1 = attachPort_ok_live[OF a1]
  have ch2: "ch2 = ch1" using attachPort_ok_frame(4)[OF a2 l1(3)] .
  note l2 = attachPort_ok_live[OF a2[unfolded ch2]]
  from attachPort_ok[OF a2] obtain a' d' e' where
    "next_chan n3 = (if live n2 ch1 \<or> live n2 recvPort then next_chan n2 else next_chan n2 + 1)"
    by blast
  then have nc3: "next_chan n3 = next_chan n2" using l1(3) by simp
  have ld3: "load n3 ch1 = load n ch1" using l2(2) l1(2) ld1 by simp
  have ty3: "Type n3 ch1 = Type n ch1"
    using attachPort_ok_Type[OF a1] attachPort_ok_Type[OF a2] ty1 by simp
  obtain p where p: "Pointer n3 ch1 = Some p" using live_Pointer[OF l2(3)] by blast
  have n4: "heap n4 = heap n3" "next_chan n4 = next_chan n3" "connections n4 = connections n3"
    using reg inc_Ret[OF p] by (auto split: if_splits)
  have con3: "connections n3 = connections n"
    using attachPort_ok_frame(1)[OF a1] attachPort_ok_frame(1)[OF a2] rf(2) by simp
  have hp': "heap n' = heap n3" using n' n4 by simp
  have A: "connections n' = connections n @
           [\<lparr>src = ?sa, tgt = ?ra, channel = ch1, buffer = b\<rparr>]"
    using n' n4 con3 by simp
  have B: "load n' ch1 = load n ch1" using ld3 load_heap[OF hp'] by simp
  have C: "Type n' ch1 = Type n ch1" using ty3 Type_heap[OF hp'] by simp
  have lch: "live n ch \<longleftrightarrow> live n ?fs \<or> live n ?fr" using chf by simp
  have "next_chan n' = next_chan n2" using n' n4 nc3 by simp
  then have D: "next_chan n' =
          (if live n ?fs \<or> live n ?fr \<or> live n sendPort
           then next_chan n else next_chan n + 1)"
    using nc2 rf(4) lv1 lch by simp
  have E: "ch1 = (if live n ?fs then ?fs else if live n ?fr then ?fr
              else if live n sendPort then sendPort
              else ChanVal (TChan BothDir e) (Some (next_chan n, b)))"
    using c1 chf lv1 rf(4) by simp
  have F: "\<not> live n ?fs \<and> \<not> live n ?fr \<and> \<not> live n sendPort \<longrightarrow> 0 \<le> b"
    using nb lv1 lch by simp
  show ?thesis
    by (intro exI[of _ d] exI[of _ e] exI[of _ ch1] conjI ts E A B C D F)
qed

section \<open>The channel a call wires\<close>

text \<open>
  Claim C7, as stated, fails: a call that finds no channel to reuse does not always
  allocate one. When the sender slot already holds a channel, \<^verbatim>\<open>selectOrMakeChan\<close>
  returns the slot itself. With \<^verbatim>\<open>E.Out\<close> set by its component to an unbuffered channel,
  \<^verbatim>\<open>ConnectBuf("E", "Out", "B", "In", 10)\<close> on the graph without connections succeeds, no
  channel is made, and the recorded channel is the one of \<^verbatim>\<open>E.Out\<close>, of capacity 0.
\<close>

theorem new_channel_capacity_counterexample:
  "findExistingChan ex_graph e_Out SendDir = ZeroValue
   \<and> findExistingChan ex_graph b_In RecvDir = ZeroValue
   \<and> ConnectBuf ex_graph ''E'' ''Out'' ''B'' ''In'' 10 = Ret (None, ex_EB)
   \<and> connections ex_EB = [\<lparr>src = e_Out, tgt = b_In, channel = FieldVal 5 True, buffer = 10\<rparr>]
   \<and> load ex_EB (FieldVal 5 True) = Some (1, 0)
   \<and> load ex_graph (FieldVal 5 True) = Some (1, 0)
   \<and> next_chan ex_EB = next_chan ex_graph"
  by (simp add: run_defs ex_defs fun_eq_iff numeral_2_eq_2[symmetric])

text \<open>
  Claim C7, amended: a successful \<^verbatim>\<open>ConnectBuf\<close> call with requested buffer size \<open>b\<close>
  that finds no channel to reuse and whose sender slot holds no channel allocates a new
  channel (at a fresh address) of capacity exactly \<open>b\<close>, bidirectional, whose element
  type is the sender slot's element type, and records it; when the sender slot already
  holds a channel, that channel is recorded as it is and nothing is allocated. A
  successful call that finds a channel to reuse records that channel unchanged (same
  address, capacity and type), whatever the requested buffer size, and allocates
  nothing.
\<close>

theorem new_channel_capacity:
  assumes ok: "ConnectBuf n sn sp rn rp b = Ret (None, n')"
    and sp: "getProcPort n sn sp SendDir = Inr sendPort"
    and fs: "fs = findExistingChan n (addr_of sn sp) SendDir"
    and fr: "fr = findExistingChan n (addr_of rn rp) RecvDir"
  shows "(\<not> live n fs \<and> \<not> live n fr \<and> \<not> live n sendPort \<longrightarrow>
            (\<exists>d e. Type n sendPort = Some (TChan d e) \<and> 0 \<le> b
               \<and> connections n' = connections n @
                     [\<lparr>src = addr_of sn sp, tgt = addr_of rn rp,
                       channel = ChanVal (TChan BothDir e) (Some (next_chan n, b)), buffer = b\<rparr>]
               \<and> next_chan n' = next_chan n + 1))
       \<and> (\<not> live n fs \<and> \<not> live n fr \<and> live n sendPort \<longrightarrow>
            connections n' = connections n @
                     [\<lparr>src = addr_of sn sp, tgt = addr_of rn rp, channel = sendPort, buffer = b\<rparr>]
            \<and> load n' sendPort = load n sendPort \<and> next_chan n' = next_chan n)
       \<and> (live n fs \<or> live n fr \<longrightarrow>
            connections n' = connections n @
                     [\<lparr>src = addr_of sn sp, tgt = addr_of rn rp,
                       channel = (if live n fs then fs else fr), buffer = b\<rparr>]
            \<and> load n' (if live n fs then fs else fr) = load n (if live n fs then fs else fr)
            \<and> Type n' (if live n fs then fs else fr) = Type n (if live n fs then fs else fr)
            \<and> next_chan n' = next_chan n)"
proof -
  from ConnectBuf_ok_channel[OF ok sp] obtain d e ch1 where
    ts: "Type n sendPort = Some (TChan d e)"
    and c1: "ch1 = (if live n fs then fs else if live n fr then fr
              else if live n sendPort then sendPort
              else ChanVal (TChan BothDir e) (Some (next_chan n, b)))"
    and con: "connections n' = connections n @
           [\<lparr>src = addr_of sn sp, tgt = addr_of rn rp, channel = ch1, buffer = b\<rparr>]"
    and ld: "load n' ch1 = load n ch1"
    and ty: "Type n' ch1 = Type n ch1"
    and nc: "next_chan n' =
          (if live n fs \<or> live n fr \<or> live n sendPort then next_chan n else next_chan n + 1)"
    and nb: "\<not> live n fs \<and> \<not> live n fr \<and> \<not> live n sendPort \<longrightarrow> 0 \<le> b"
    unfolding fs fr by blast
  have A: "\<not> live n fs \<and> \<not> live n fr \<and> \<not> live n sendPort \<longrightarrow>
            (\<exists>d e. Type n sendPort = Some (TChan d e) \<and> 0 \<le> b
               \<and> connections n' = connections n @
                     [\<lparr>src = addr_of sn sp, tgt = addr_of rn rp,
                       channel = ChanVal (TChan BothDir e) (Some (next_chan n, b)), buffer = b\<rparr>]
               \<and> next_chan n' = next_chan n + 1)"
  proof
    assume l: "\<not> live n fs \<and> \<not> live n fr \<and> \<not> live n sendPort"
    then have "ch1 = ChanVal (TChan BothDir e) (Some (next_chan n, b))" using c1 by simp
    then have "Type n sendPort = Some (TChan d e) \<and> 0 \<le> b
               \<and> connections n' = connections n @
                     [\<lparr>src = addr_of sn sp, tgt = addr_of rn rp,
                       channel = ChanVal (TChan BothDir e) (Some (next_chan n, b)), buffer = b\<rparr>]
               \<and> next_chan n' = next_chan n + 1"
      using ts con nc nb l by simp
    then show "\<exists>d e. Type n sendPort = Some (TChan d e) \<and> 0 \<le> b
               \<and> connections n' = connections n @
                     [\<lparr>src = addr_of sn sp, tgt = addr_of rn rp,
                       channel = ChanVal (TChan BothDir e) (Some (next_chan n, b)), buffer = b\<rparr>]
               \<and> next_chan n' = next_chan n + 1"
      by blast
  qed
  have B: "\<not> live n fs \<and> \<not> live n fr \<and> live n sendPort \<longrightarrow>
            connections n' = connections n @
                     [\<lparr>src = addr_of sn sp, tgt = addr_of rn rp, channel = sendPort, buffer = b\<rparr>]
            \<and> load n' sendPort = load n sendPort \<and> next_chan n' = next_chan n"
  proof
    assume l: "\<not> live n fs \<and> \<not> live n fr \<and> live n sendPort"
    then have "ch1 = sendPort" using c1 by simp
    then show "connections n' = connections n @
                     [\<lparr>src = addr_of sn sp, tgt = addr_of rn rp, channel = sendPort, buffer = b\<rparr>]
            \<and> load n' sendPort = load n sendPort \<and> next_chan n' = next_chan n"
      using con ld nc l by simp
  qed
  have C: "live n fs \<or> live n fr \<longrightarrow>
            connections n' = connections n @
                     [\<lparr>src = addr_of sn sp, tgt = addr_of rn rp,
                       channel = (if live n fs then fs else fr), buffer = b\<rparr>]
            \<and> load n' (if live n fs then fs else fr) = load n (if live n fs then fs else fr)
            \<and> Type n' (if live n fs then fs else fr) = Type n (if live n fs then fs else fr)
            \<and> next_chan n' = next_chan n"
  proof
    assume l: "live n fs \<or> live n fr"
    then have "ch1 = (if live n fs then fs else fr)" using c1 by auto
    then show "connections n' = connections n @
                     [\<lparr>src = addr_of sn sp, tgt = addr_of rn rp,
                       channel = (if live n fs then fs else fr), buffer = b\<rparr>]
            \<and> load n' (if live n fs then fs else fr) = load n (if live n fs then fs else fr)
            \<and> Type n' (if live n fs then fs else fr) = Type n (if live n fs then fs else fr)
            \<and> next_chan n' = next_chan n"
      using con ld ty nc l by auto
  qed
  show ?thesis using A B C by blast
qed

theorem new_channel_capacity_witness:
  "ConnectBuf ex_graph ''A'' ''Out'' ''B'' ''In'' 10 = Ret (None, ex_AB)
   \<and> getProcPort ex_graph ''A'' ''Out'' SendDir = Inr (FieldVal 0 True)
   \<and> Type ex_graph (FieldVal 0 True) = Some (TChan SendDir (TNamed ''int''))
   \<and> connections ex_AB =
        [\<lparr>src = a_Out, tgt = b_In,
          channel = ChanVal (TChan BothDir (TNamed ''int'')) (Some (2, 10)), buffer = 10\<rparr>]
   \<and> ConnectBuf ex_AB ''A'' ''Out'' ''C'' ''In'' 5 = Ret (None, ex_AB_AC)
   \<and> getProcPort ex_AB ''A'' ''Out'' SendDir = Inr (FieldVal 0 True)
   \<and> connections ex_AB_AC = connections ex_AB @
        [\<lparr>src = a_Out, tgt = c_In,
          channel = ChanVal (TChan BothDir (TNamed ''int'')) (Some (2, 10)), buffer = 5\<rparr>]
   \<and> next_chan ex_AB_AC = next_chan ex_AB"
proof -
  have g1: "getProcPort ex_graph ''A'' ''Out'' SendDir = Inr (FieldVal 0 True)"
    and g2: "getProcPort ex_AB ''A'' ''Out'' SendDir = Inr (FieldVal 0 True)"
    by (simp_all add: getProcPort_def FieldByName_def ex_defs)
  have t: "Type ex_graph (FieldVal 0 True) = Some (TChan SendDir (TNamed ''int''))"
    by (simp add: ex_defs)
  have f1: "findExistingChan ex_graph (addr_of ''A'' ''Out'') SendDir = ZeroValue"
    and f2: "findExistingChan ex_graph (addr_of ''B'' ''In'') RecvDir = ZeroValue"
    by (simp_all add: findExistingChan_def ex_graph_def)
  have l0: "\<not> live ex_graph ZeroValue" "\<not> live ex_graph (FieldVal 0 True)"
    by (simp_all add: live_def IsNil_def ex_defs)
  from new_channel_capacity[OF run_AB g1 f1[symmetric] f2[symmetric]] l0 t
  have a: "connections ex_AB = connections ex_graph @
             [\<lparr>src = addr_of ''A'' ''Out'', tgt = addr_of ''B'' ''In'',
               channel = ChanVal (TChan BothDir (TNamed ''int'')) (Some (next_chan ex_graph, 10)),
               buffer = 10\<rparr>]"
    by auto
  have f3: "findExistingChan ex_AB (addr_of ''A'' ''Out'') SendDir
              = ChanVal (TChan BothDir (TNamed ''int'')) (Some (2, 10))"
    by (simp add: findExistingChan_def addr_of_A_Out ex_defs)
  have l1: "live ex_AB (ChanVal (TChan BothDir (TNamed ''int'')) (Some (2, 10)))"
    by (simp add: live_def IsNil_def)
  from new_channel_capacity[OF run_AB_AC g2 f3[symmetric] refl] l1
  have b: "connections ex_AB_AC = connections ex_AB @
             [\<lparr>src = addr_of ''A'' ''Out'', tgt = addr_of ''C'' ''In'',
               channel = ChanVal (TChan BothDir (TNamed ''int'')) (Some (2, 10)), buffer = 5\<rparr>]"
    and c: "next_chan ex_AB_AC = next_chan ex_AB"
    by auto
  have nx: "next_chan ex_graph = 2" "connections ex_graph = []" by (simp_all add: ex_graph_def)
  show ?thesis
    using run_AB run_AB_AC g1 g2 t a b c nx
    by (simp add: addr_of_A_Out addr_of_B_In addr_of_C_In)
qed

section \<open>Failures and panics\<close>




section \<open>Properties of the resolver\<close>



section \<open>The invariant of the connection list\<close>

lemma attachPort_live:
  assumes "attachPort n p dir ch b = Ret (ch1, eo, n2)" "live n v"
  shows "live n2 v"
proof (cases eo)
  case None
  then show ?thesis using attachPort_ok_live(4)[of n p dir ch b ch1 n2 v] assms by simp
next
  case (Some err)
  then have "n2 = n" using attachPort_err[of n p dir ch b ch1 err n2] assms(1) by simp
  then show ?thesis using assms(2) by simp
qed

lemma ConnectBuf_err_live:
  assumes c: "ConnectBuf n sn sp rn rp b = Ret (Some e, n')" and lv: "live n v"
  shows "live n' v"
proof (cases "getProcPort n sn sp SendDir")
  case (Inl e1)
  then show ?thesis using c lv ConnectBuf_unresolved(1)[OF Inl] by simp
next
  case (Inr sendPort)
  show ?thesis
  proof (cases "getProcPort n rn rp RecvDir")
    case (Inl e2)
    then show ?thesis using c lv ConnectBuf_unresolved(2)[OF Inr Inl] by simp
  next
    case r: (Inr recvPort)
    obtain ch isNew n1 where re: "reuse_chan n (addr_of sn sp) (addr_of rn rp) = Ret (ch, isNew, n1)"
      using reuse_chan_Ret by blast
    have l1: "live n1 v" using live_heap[OF reuse_chan_frame(1)[OF re], of v] lv by simp
    note eq = ConnectBuf_resolved[OF Inr r re, of b]
    show ?thesis
    proof (cases "attachPort n1 sendPort SendDir ch b")
      case Panic
      then show ?thesis using c eq by simp
    next
      case (Ret x)
      obtain ch1 eo n2 where x: "x = (ch1, eo, n2)" by (cases x) auto
      have a1: "attachPort n1 sendPort SendDir ch b = Ret (ch1, eo, n2)" using Ret x by simp
      have l2: "live n2 v" using attachPort_live[OF a1 l1] .
      show ?thesis
      proof (cases eo)
        case (Some err)
        then show ?thesis using c eq a1 l2 by simp
      next
        case None
        show ?thesis
        proof (cases "attachPort n2 recvPort RecvDir ch1 b")
          case Panic
          then show ?thesis using c eq a1 None by simp
        next
          case r2: (Ret y)
          obtain ch2 eo2 n3 where y: "y = (ch2, eo2, n3)" by (cases y) auto
          have a2: "attachPort n2 recvPort RecvDir ch1 b = Ret (ch2, eo2, n3)" using r2 y by simp
          have l3: "live n3 v" using attachPort_live[OF a2 l2] .
          show ?thesis
          proof (cases eo2)
            case (Some err)
            then show ?thesis using c eq a1 a2 None l3 by simp
          next
            case n2: None
            then show ?thesis using c eq a1 a2 None by (simp split: res.splits)
          qed
        qed
      qed
    qed
  qed
qed

text \<open>The hypothesis on the graph in the claims above is an invariant: it holds for a
  graph without connections, and every call of \<^verbatim>\<open>ConnectBuf\<close> that returns keeps it.\<close>

lemma conns_live_empty: "connections n = [] \<Longrightarrow> conns_live n"
  by (simp add: conns_live_def)

lemma ConnectBuf_keeps_conns_live:
  assumes inv: "conns_live n" and c: "ConnectBuf n sn sp rn rp b = Ret (eo, n')"
  shows "conns_live n'"
proof (cases eo)
  case None
  then have ok: "ConnectBuf n sn sp rn rp b = Ret (None, n')" using c by simp
  from ConnectBuf_ok_summary[OF ok] obtain ch1 p where
    con: "connections n' = connections n @
             [\<lparr>src = addr_of sn sp, tgt = addr_of rn rp, channel = ch1, buffer = b\<rparr>]"
    and l: "live n' ch1" and keep: "\<forall>v. live n v \<longrightarrow> live n' v"
    by blast
  show ?thesis using inv con l keep by (auto simp: conns_live_def)
next
  case (Some e)
  then have er: "ConnectBuf n sn sp rn rp b = Ret (Some e, n')" using c by simp
  have "connections n' = connections n" using ConnectBuf_err(1)[OF er] .
  then show ?thesis using inv ConnectBuf_err_live[OF er] by (auto simp: conns_live_def)
qed

end
